theory Spec2Isabelle
  imports Main
begin

section \<open>The connection registry of src/connection/Connection.ts\<close>

text \<open>
  The class \<open>Connection\<close> keeps, for one database connection, the registered entity
  metadatas, the subscribers, one broadcaster per metadata and one
  \<open>{repository, metadata}\<close> pair per metadata, and resolves each of them from an entity
  class. The embedding below follows the class field by field and method by method.

  JavaScript objects have an identity: \<open>===\<close> on two objects compares references. An
  object is modelled as a record that carries its identity in a field of its own, so
  that \<open>===\<close> is equality of the records. An entity class (a \<open>Function\<close>) and a
  subscriber are opaque to this class; only their identity is kept.
\<close>

subsection \<open>Data\<close>

type_synonym ref = nat
type_synonym entity_class = ref
type_synonym OrmSubscriber = ref

text \<open>
  \<open>EntityMetadata\<close> comes from the metadata builder. \<open>Connection\<close> reads its field
  \<open>target\<close> only; \<open>meta_id\<close> is the identity of the object.
\<close>

record EntityMetadata =
  meta_id :: ref
  target :: entity_class

text \<open>
  Modelled from the spec: the class \<open>OrmBroadcaster\<close> (its constructor is called with
  the subscriber array and the target, and \<open>getBroadcaster\<close> reads its field
  \<open>entityClass\<close>). The spec says that a broadcaster holds a reference to the subscriber
  list given at creation plus the target identity. \<open>subscribers_ref\<close> is that reference:
  the address of a JavaScript array in the store of the state below.
\<close>

record OrmBroadcaster =
  broadcaster_id :: ref
  subscribers_ref :: ref
  entityClass :: entity_class

text \<open>
  Modelled from the spec: the class \<open>Repository\<close>, constructed from the connection, a
  metadata and a broadcaster, and holding a reference to its broadcaster. The reference
  to the connection is left out: a state has one connection.
\<close>

record Repository =
  repository_id :: ref
  repo_metadata :: EntityMetadata
  repo_broadcaster :: OrmBroadcaster

record RepositoryAndMetadata =
  repository :: Repository
  metadata :: EntityMetadata

text \<open>
  Of \<open>ConnectionOptions\<close> the class reads \<open>autoSchemaCreate\<close>, a boolean that may be
  omitted.
\<close>

record ConnectionOptions =
  autoSchemaCreate :: "bool option"

text \<open>
  The three errors thrown by the lookups carry the entity class. \<open>ExternalError\<close> stands
  for whatever reason the driver or the schema creator rejects its promise with.
\<close>

datatype error =
    MetadataNotFoundError entity_class
  | RepositoryNotFoundError entity_class
  | BroadcasterNotFoundError entity_class
  | ExternalError nat

text \<open>
  The fields of the class. \<open>subscribers\<close> is the reference held in \<open>_subscribers\<close>; the
  array itself lives in the store, because broadcasters share it. The other arrays are
  only ever replaced by the result of \<open>concat\<close>, and are kept as values. The driver is
  external; its calls are recorded in the log of the state.
\<close>

record Connection =
  name :: string
  metadatas :: "EntityMetadata list"
  subscribers :: ref
  broadcasters :: "OrmBroadcaster list"
  repositoryAndMetadatas :: "RepositoryAndMetadata list"
  options :: "ConnectionOptions option"

text \<open>
  What the driver and the schema creator are asked to do, and how the driver's promise
  settles, in the order in which it happens.
\<close>

datatype event =
    DriverConnect ConnectionOptions
  | DriverConnectResolved
  | DriverConnectRejected error
  | SchemaCreate
  | DriverDisconnect

text \<open>
  How a promise of the driver or of the schema creator ends: fulfilled, rejected with a
  reason, or never settled.
\<close>

datatype settlement = Fulfilled | Rejected error | Pending

text \<open>
  A state: the connection object, the store of subscriber arrays, the next free
  address (arrays, broadcasters and repositories are allocated from it) and the log.
\<close>

record state =
  conn :: Connection
  arrays :: "ref \<rightharpoonup> OrmSubscriber list"
  next_ref :: ref
  log :: "event list"

definition read_array :: "state \<Rightarrow> ref \<Rightarrow> OrmSubscriber list" where
  "read_array s r = (case arrays s r of None \<Rightarrow> [] | Some xs \<Rightarrow> xs)"

definition alloc_array :: "OrmSubscriber list \<Rightarrow> state \<Rightarrow> ref \<times> state" where
  "alloc_array xs s =
     (next_ref s, s\<lparr>arrays := (arrays s)(next_ref s \<mapsto> xs), next_ref := Suc (next_ref s)\<rparr>)"

subsection \<open>Constructor and getters\<close>

text \<open>
  \<open>new Connection(name, driver)\<close>: the field initialisers create four empty arrays, of
  which the subscriber array is shared later on; the options are undefined.
\<close>

definition new_Connection :: "string \<Rightarrow> state" where
  "new_Connection nm =
     \<lparr>conn = \<lparr>name = nm, metadatas = [], subscribers = 0, broadcasters = [],
              repositoryAndMetadatas = [], options = None\<rparr>,
      arrays = [0 \<mapsto> []], next_ref = 1, log = []\<rparr>"

definition repositories :: "Connection \<Rightarrow> Repository list" where
  "repositories c = map repository (repositoryAndMetadatas c)"

text \<open>The contents of the array that \<open>_subscribers\<close> refers to.\<close>

definition current_subscribers :: "state \<Rightarrow> OrmSubscriber list" where
  "current_subscribers s = read_array s (subscribers (conn s))"

subsection \<open>Lookups\<close>

text \<open>
  \<open>Array.prototype.find\<close> is \<^const>\<open>List.find\<close>: the first element that satisfies the
  predicate, or nothing. The three methods assign to no field.
\<close>

definition getMetadata :: "Connection \<Rightarrow> entity_class \<Rightarrow> error + EntityMetadata" where
  "getMetadata c entityClass' =
     (case List.find (\<lambda>m. target m = entityClass') (metadatas c) of
        None \<Rightarrow> Inl (MetadataNotFoundError entityClass')
      | Some m \<Rightarrow> Inr m)"

definition getRepository :: "Connection \<Rightarrow> entity_class \<Rightarrow> error + Repository" where
  "getRepository c entityClass' =
     (case getMetadata c entityClass' of
        Inl e \<Rightarrow> Inl e
      | Inr m \<Rightarrow>
          (case List.find (\<lambda>repoMeta. metadata repoMeta = m) (repositoryAndMetadatas c) of
             None \<Rightarrow> Inl (RepositoryNotFoundError entityClass')
           | Some repoMeta \<Rightarrow> Inr (repository repoMeta)))"

definition getBroadcaster :: "Connection \<Rightarrow> entity_class \<Rightarrow> error + OrmBroadcaster" where
  "getBroadcaster c entityClass' =
     (case List.find (\<lambda>b. entityClass b = entityClass') (broadcasters c) of
        None \<Rightarrow> Inl (BroadcasterNotFoundError entityClass')
      | Some b \<Rightarrow> Inr b)"

text \<open>
  The subscriber view of the broadcaster of an entity class: the contents of the array
  that the broadcaster refers to (\<open>getBroadcaster(e).subscribers\<close> in the spec's
  scenario).
\<close>

definition subscriber_view :: "state \<Rightarrow> OrmBroadcaster \<Rightarrow> OrmSubscriber list" where
  "subscriber_view s b = read_array s (subscribers_ref b)"

definition getBroadcasterSubscribers :: "state \<Rightarrow> entity_class \<Rightarrow> error + OrmSubscriber list" where
  "getBroadcasterSubscribers s entityClass' =
     (case getBroadcaster (conn s) entityClass' of
        Inl e \<Rightarrow> Inl e
      | Inr b \<Rightarrow> Inr (subscriber_view s b))"

subsection \<open>Registration\<close>

text \<open>
  Modelled from the spec: the constructors of \<open>OrmBroadcaster\<close> and \<open>Repository\<close>. Each
  \<open>new\<close> takes the next free address as the identity of the object and stores its
  arguments.
\<close>

definition new_OrmBroadcaster :: "ref \<Rightarrow> entity_class \<Rightarrow> state \<Rightarrow> OrmBroadcaster \<times> state" where
  "new_OrmBroadcaster subs t s =
     (\<lparr>broadcaster_id = next_ref s, subscribers_ref = subs, entityClass = t\<rparr>,
      s\<lparr>next_ref := Suc (next_ref s)\<rparr>)"

definition new_Repository :: "EntityMetadata \<Rightarrow> OrmBroadcaster \<Rightarrow> state \<Rightarrow> Repository \<times> state" where
  "new_Repository m b s =
     (\<lparr>repository_id = next_ref s, repo_metadata = m, repo_broadcaster = b\<rparr>,
      s\<lparr>next_ref := Suc (next_ref s)\<rparr>)"

definition createBroadcasterForMetadata :: "EntityMetadata \<Rightarrow> state \<Rightarrow> OrmBroadcaster \<times> state" where
  "createBroadcasterForMetadata m s = new_OrmBroadcaster (subscribers (conn s)) (target m) s"

text \<open>
  \<open>createRepoMeta\<close> evaluates \<open>this.getBroadcaster(metadata.target)\<close> before it
  constructs the repository, so a throwing lookup allocates nothing.
\<close>

definition createRepoMeta :: "EntityMetadata \<Rightarrow> state \<Rightarrow> (error + RepositoryAndMetadata) \<times> state" where
  "createRepoMeta m s =
     (case getBroadcaster (conn s) (target m) of
        Inl e \<Rightarrow> (Inl e, s)
      | Inr b \<Rightarrow>
          (case new_Repository m b s of
             (r, s') \<Rightarrow> (Inr \<lparr>repository = r, metadata = m\<rparr>, s')))"

text \<open>
  \<open>metadatas.map(...)\<close> with the two callbacks: left to right, each call in the state
  the previous one left; an exception ends the loop.
\<close>

fun map_createBroadcaster :: "EntityMetadata list \<Rightarrow> state \<Rightarrow> OrmBroadcaster list \<times> state" where
  "map_createBroadcaster [] s = ([], s)"
| "map_createBroadcaster (m # ms) s =
     (case createBroadcasterForMetadata m s of
        (b, s1) \<Rightarrow>
          (case map_createBroadcaster ms s1 of
             (bs, s2) \<Rightarrow> (b # bs, s2)))"

fun map_createRepoMeta :: "EntityMetadata list \<Rightarrow> state \<Rightarrow> (error + RepositoryAndMetadata list) \<times> state" where
  "map_createRepoMeta [] s = (Inr [], s)"
| "map_createRepoMeta (m # ms) s =
     (case createRepoMeta m s of
        (Inl e, s1) \<Rightarrow> (Inl e, s1)
      | (Inr rm, s1) \<Rightarrow>
          (case map_createRepoMeta ms s1 of
             (Inl e, s2) \<Rightarrow> (Inl e, s2)
           | (Inr rms, s2) \<Rightarrow> (Inr (rm # rms), s2)))"

text \<open>
  \<open>addMetadatas\<close>: three assignments in sequence. The result is the exception that
  left the method, if any, and the state at that point.
\<close>

definition addMetadatas :: "EntityMetadata list \<Rightarrow> state \<Rightarrow> error option \<times> state" where
  "addMetadatas ms s =
     (let s1 = s\<lparr>conn := (conn s)\<lparr>metadatas := metadatas (conn s) @ ms\<rparr>\<rparr> in
      case map_createBroadcaster ms s1 of
        (bs, s2) \<Rightarrow>
          (let s3 = s2\<lparr>conn := (conn s2)\<lparr>broadcasters := broadcasters (conn s1) @ bs\<rparr>\<rparr> in
           case map_createRepoMeta ms s3 of
             (Inl e, s4) \<Rightarrow> (Some e, s4)
           | (Inr rms, s4) \<Rightarrow>
               (None, s4\<lparr>conn := (conn s4)\<lparr>repositoryAndMetadatas :=
                                              repositoryAndMetadatas (conn s3) @ rms\<rparr>\<rparr>)))"

text \<open>
  \<open>addSubscribers\<close>: \<open>concat\<close> builds a new array and leaves the old one as it is; the
  field then refers to the new array.
\<close>

definition addSubscribers :: "OrmSubscriber list \<Rightarrow> state \<Rightarrow> state" where
  "addSubscribers subs s =
     (case alloc_array (read_array s (subscribers (conn s)) @ subs) s of
        (r, s1) \<Rightarrow> s1\<lparr>conn := (conn s1)\<lparr>subscribers := r\<rparr>\<rparr>)"

subsection \<open>Life cycle\<close>

text \<open>
  \<open>connect\<close> stores the options, calls \<open>driver.connect(options)\<close> and chains a callback
  with \<open>then\<close>: the callback runs only when the driver's promise is fulfilled, and calls
  \<open>schemaCreator.create()\<close> only when \<open>options.autoSchemaCreate === true\<close>. How the two
  external promises settle is given by \<open>driver_result\<close> and \<open>schema_result\<close>. The
  result is how the returned promise settles: as the driver's promise when that is
  rejected or pending, as the promise of \<open>create()\<close> when the callback returns it, and
  fulfilled otherwise.
\<close>

definition connect :: "ConnectionOptions \<Rightarrow> settlement \<Rightarrow> settlement \<Rightarrow> state \<Rightarrow> settlement \<times> state" where
  "connect opts driver_result schema_result s =
     (let s1 = s\<lparr>conn := (conn s)\<lparr>options := Some opts\<rparr>\<rparr>;
          s2 = s1\<lparr>log := log s1 @ [DriverConnect opts]\<rparr>
      in case driver_result of
           Pending \<Rightarrow> (Pending, s2)
         | Rejected e \<Rightarrow> (Rejected e, s2\<lparr>log := log s2 @ [DriverConnectRejected e]\<rparr>)
         | Fulfilled \<Rightarrow>
             (let s3 = s2\<lparr>log := log s2 @ [DriverConnectResolved]\<rparr>
              in if autoSchemaCreate opts = Some True
                 then (schema_result, s3\<lparr>log := log s3 @ [SchemaCreate]\<rparr>)
                 else (Fulfilled, s3)))"

text \<open>\<open>close\<close> returns the promise of \<open>driver.disconnect()\<close>.\<close>

definition close :: "settlement \<Rightarrow> state \<Rightarrow> settlement \<times> state" where
  "close driver_result s = (driver_result, s\<lparr>log := log s @ [DriverDisconnect]\<rparr>)"

subsection \<open>The public interface as calls\<close>

text \<open>
  A call of a public method, with the answers of the external collaborators where the
  method waits for them; what a call gives back to a caller that awaits it; and the
  state it leaves.
\<close>

datatype call =
    Connect ConnectionOptions settlement settlement
  | Close settlement
  | AddMetadatas "EntityMetadata list"
  | AddSubscribers "OrmSubscriber list"
  | GetRepository entity_class
  | GetMetadata entity_class
  | GetBroadcaster entity_class

datatype outcome =
    Returned
  | ReturnedRepository Repository
  | ReturnedMetadata EntityMetadata
  | ReturnedBroadcaster OrmBroadcaster
  | Thrown error
  | Unsettled

definition settle :: "error option \<Rightarrow> outcome" where
  "settle r = (case r of None \<Rightarrow> Returned | Some e \<Rightarrow> Thrown e)"

definition awaited :: "settlement \<Rightarrow> outcome" where
  "awaited r = (case r of Fulfilled \<Rightarrow> Returned | Rejected e \<Rightarrow> Thrown e | Pending \<Rightarrow> Unsettled)"

fun exec :: "call \<Rightarrow> state \<Rightarrow> outcome \<times> state" where
  "exec (Connect opts dr sr) s = (case connect opts dr sr s of (r, s') \<Rightarrow> (awaited r, s'))"
| "exec (Close dr) s = (case close dr s of (r, s') \<Rightarrow> (awaited r, s'))"
| "exec (AddMetadatas ms) s = (case addMetadatas ms s of (r, s') \<Rightarrow> (settle r, s'))"
| "exec (AddSubscribers subs) s = (Returned, addSubscribers subs s)"
| "exec (GetRepository e) s =
     (case getRepository (conn s) e of Inl err \<Rightarrow> (Thrown err, s) | Inr r \<Rightarrow> (ReturnedRepository r, s))"
| "exec (GetMetadata e) s =
     (case getMetadata (conn s) e of Inl err \<Rightarrow> (Thrown err, s) | Inr m \<Rightarrow> (ReturnedMetadata m, s))"
| "exec (GetBroadcaster e) s =
     (case getBroadcaster (conn s) e of Inl err \<Rightarrow> (Thrown err, s) | Inr b \<Rightarrow> (ReturnedBroadcaster b, s))"

text \<open>
  A sequence of calls on one connection. A caller may catch an exception and go on, so
  a throwing call does not end the sequence.
\<close>

fun run :: "call list \<Rightarrow> state \<Rightarrow> state" where
  "run [] s = s"
| "run (c # cs) s = run cs (snd (exec c s))"

text \<open>What a sequence of calls passed to \<open>addMetadatas\<close> and to \<open>addSubscribers\<close>.\<close>

fun registered_metadatas :: "call list \<Rightarrow> EntityMetadata list" where
  "registered_metadatas [] = []"
| "registered_metadatas (AddMetadatas ms # cs) = ms @ registered_metadatas cs"
| "registered_metadatas (c # cs) = registered_metadatas cs"

fun registered_subscribers :: "call list \<Rightarrow> OrmSubscriber list" where
  "registered_subscribers [] = []"
| "registered_subscribers (AddSubscribers subs # cs) = subs @ registered_subscribers cs"
| "registered_subscribers (c # cs) = registered_subscribers cs"

subsection \<open>What the registration loops compute\<close>

text \<open>
  The broadcasters that \<open>addMetadatas\<close> creates for \<open>ms\<close> in state \<open>s\<close>: the \<open>i\<close>-th one
  takes the \<open>i\<close>-th free address, the subscriber array of the moment and the target of
  \<open>ms ! i\<close>. That the loop computes this list is proved below.
\<close>

definition new_broadcasters :: "state \<Rightarrow> EntityMetadata list \<Rightarrow> OrmBroadcaster list" where
  "new_broadcasters s ms =
     map (\<lambda>i. \<lparr>broadcaster_id = next_ref s + i, subscribers_ref = subscribers (conn s),
                 entityClass = target (ms ! i)\<rparr>) [0..<length ms]"

text \<open>
  Facts about addresses and bindings that hold in every state the public methods
  reach: the subscriber array, the broadcasters and the repositories have addresses
  below the next free one, and the broadcaster of every repository is the one that
  \<open>getBroadcaster\<close> returns for the target of the repository's metadata.
\<close>

definition registry_inv :: "state \<Rightarrow> bool" where
  "registry_inv s \<longleftrightarrow>
     subscribers (conn s) < next_ref s \<and>
     (\<forall>b \<in> set (broadcasters (conn s)).
        broadcaster_id b < next_ref s \<and> subscribers_ref b < next_ref s) \<and>
     (\<forall>p \<in> set (repositoryAndMetadatas (conn s)).
        repository_id (repository p) < next_ref s \<and>
        getBroadcaster (conn s) (target (metadata p)) = Inr (repo_broadcaster (repository p)))"

text \<open>
  The events that one call of \<open>connect\<close> adds to the log.
\<close>

definition connect_events :: "ConnectionOptions \<Rightarrow> settlement \<Rightarrow> settlement \<Rightarrow> state \<Rightarrow> event list" where
  "connect_events opts dr sr s = drop (length (log s)) (log (snd (connect opts dr sr s)))"

text \<open>
  Addresses are handed out once: no two broadcasters and no two repositories of a
  reachable state share their identity.
\<close>

definition distinct_ids :: "state \<Rightarrow> bool" where
  "distinct_ids s \<longleftrightarrow>
     distinct (map broadcaster_id (broadcasters (conn s))) \<and>
     distinct (map (\<lambda>p. repository_id (repository p)) (repositoryAndMetadatas (conn s)))"

text \<open>
  The broadcaster and the pair that a call of \<open>addMetadatas\<close> in state \<open>s\<close> created for
  the \<open>i\<close>-th entry of its argument, read from the state \<open>s'\<close> that the call left: they
  stand \<open>i\<close> places after the end of the sequences of \<open>s\<close>.
\<close>

definition created_broadcaster :: "state \<Rightarrow> state \<Rightarrow> nat \<Rightarrow> OrmBroadcaster" where
  "created_broadcaster s s' i = broadcasters (conn s') ! (length (broadcasters (conn s)) + i)"

definition created_pair :: "state \<Rightarrow> state \<Rightarrow> nat \<Rightarrow> RepositoryAndMetadata" where
  "created_pair s s' i =
     repositoryAndMetadatas (conn s') ! (length (repositoryAndMetadatas (conn s)) + i)"

text \<open>The first broadcaster of a list that is bound to a target, when there is one.\<close>

abbreviation first_broadcaster :: "OrmBroadcaster list \<Rightarrow> entity_class \<Rightarrow> OrmBroadcaster" where
  "first_broadcaster bs t \<equiv> the (List.find (\<lambda>b. entityClass b = t) bs)"

section \<open>The registration loops in closed form\<close>


lemma map_createBroadcaster_eq:
  "map_createBroadcaster ms s =
     (map (\<lambda>i. \<lparr>broadcaster_id = next_ref s + i, subscribers_ref = subscribers (conn s),
                 entityClass = target (ms ! i)\<rparr>) [0..<length ms],
      s\<lparr>next_ref := next_ref s + length ms\<rparr>)"
proof (induction ms arbitrary: s)
  case Nil
  then show ?case by simp
next
  case (Cons m ms)
  show ?case
    by (simp add: Cons.IH createBroadcasterForMetadata_def new_OrmBroadcaster_def map_upt_Suc del: upt_Suc)
qed

lemma getBroadcaster_found:
  "t \<in> entityClass ` set (broadcasters c) \<Longrightarrow> getBroadcaster c t = Inr (first_broadcaster (broadcasters c) t)"
  by (auto simp: getBroadcaster_def find_None_iff split: option.splits)

lemma map_createRepoMeta_eq:
  "target ` set ms \<subseteq> entityClass ` set (broadcasters (conn s)) \<Longrightarrow>
   map_createRepoMeta ms s =
     (Inr (map (\<lambda>i. \<lparr>repository = \<lparr>repository_id = next_ref s + i, repo_metadata = ms ! i,
                                   repo_broadcaster = first_broadcaster (broadcasters (conn s)) (target (ms ! i))\<rparr>,
                     metadata = ms ! i\<rparr>) [0..<length ms]),
      s\<lparr>next_ref := next_ref s + length ms\<rparr>)"
proof (induction ms arbitrary: s)
  case Nil
  then show ?case by simp
next
  case (Cons m ms)
  have m: "target m \<in> entityClass ` set (broadcasters (conn s))"
    using Cons.prems by simp
  let ?s1 = "s\<lparr>next_ref := Suc (next_ref s)\<rparr>"
  have rest: "target ` set ms \<subseteq> entityClass ` set (broadcasters (conn ?s1))"
    using Cons.prems by simp
  show ?case
    by (simp add: Cons.IH [OF rest] createRepoMeta_def new_Repository_def getBroadcaster_found [OF m]
        map_upt_Suc del: upt_Suc)
qed

lemma length_new_broadcasters [simp]: "length (new_broadcasters s ms) = length ms"
  by (simp add: new_broadcasters_def)

lemma map_entityClass_new_broadcasters [simp]:
  "map entityClass (new_broadcasters s ms) = map target ms"
  by (rule nth_equalityI) (simp_all add: new_broadcasters_def)

lemma addMetadatas_eq:
  "addMetadatas ms s =
     (None,
      s\<lparr>conn := (conn s)
             \<lparr>metadatas := metadatas (conn s) @ ms,
              broadcasters := broadcasters (conn s) @ new_broadcasters s ms,
              repositoryAndMetadatas := repositoryAndMetadatas (conn s) @
                map (\<lambda>i. \<lparr>repository =
                            \<lparr>repository_id = next_ref s + length ms + i, repo_metadata = ms ! i,
                             repo_broadcaster =
                               first_broadcaster (broadcasters (conn s) @ new_broadcasters s ms)
                                 (target (ms ! i))\<rparr>,
                          metadata = ms ! i\<rparr>) [0..<length ms]\<rparr>,
        next_ref := next_ref s + 2 * length ms\<rparr>)"
proof -
  let ?s1 = "s\<lparr>conn := (conn s)\<lparr>metadatas := metadatas (conn s) @ ms\<rparr>\<rparr>"
  let ?s2 = "?s1\<lparr>next_ref := next_ref ?s1 + length ms\<rparr>"
  let ?s3 = "?s2\<lparr>conn := (conn ?s2)\<lparr>broadcasters := broadcasters (conn ?s1) @ new_broadcasters s ms\<rparr>\<rparr>"
  have bs: "map_createBroadcaster ms ?s1 = (new_broadcasters s ms, ?s2)"
    by (simp add: map_createBroadcaster_eq new_broadcasters_def)
  have sub: "target ` set ms \<subseteq> entityClass ` set (broadcasters (conn ?s3))"
  proof -
    have "entityClass ` set (new_broadcasters s ms) = target ` set ms"
      using map_entityClass_new_broadcasters [of s ms] by (metis set_map)
    then show ?thesis by auto
  qed
  show ?thesis
    unfolding addMetadatas_def Let_def bs prod.case map_createRepoMeta_eq [OF sub] sum.case
    by (simp add: add.assoc)
qed

lemma addSubscribers_eq:
  "addSubscribers subs s =
     s\<lparr>conn := (conn s)\<lparr>subscribers := next_ref s\<rparr>,
       arrays := (arrays s)(next_ref s \<mapsto> read_array s (subscribers (conn s)) @ subs),
       next_ref := Suc (next_ref s)\<rparr>"
  by (simp add: addSubscribers_def alloc_array_def)

subsection \<open>One call\<close>

lemma connect_frame:
  "conn (snd (connect opts dr sr s)) = (conn s)\<lparr>options := Some opts\<rparr>"
  "arrays (snd (connect opts dr sr s)) = arrays s"
  "next_ref (snd (connect opts dr sr s)) = next_ref s"
  by (simp_all add: connect_def Let_def split: settlement.splits)

lemma close_frame:
  "conn (snd (close dr s)) = conn s"
  "arrays (snd (close dr s)) = arrays s"
  "next_ref (snd (close dr s)) = next_ref s"
  by (simp_all add: close_def)

lemma getBroadcaster_cong:
  "broadcasters c = broadcasters c' \<Longrightarrow> getBroadcaster c t = getBroadcaster c' t"
  by (simp add: getBroadcaster_def)

lemma find_append:
  "List.find P (xs @ ys) = (case List.find P xs of None \<Rightarrow> List.find P ys | Some x \<Rightarrow> Some x)"
  by (induction xs) simp_all

lemma getBroadcaster_append:
  "getBroadcaster c t = Inr b \<Longrightarrow> broadcasters c' = broadcasters c @ bs \<Longrightarrow> getBroadcaster c' t = Inr b"
  by (auto simp: getBroadcaster_def find_append split: option.splits)

lemma snd_exec:
  "snd (exec (Connect opts dr sr) s) = snd (connect opts dr sr s)"
  "snd (exec (Close dr) s) = snd (close dr s)"
  "snd (exec (AddMetadatas ms) s) = snd (addMetadatas ms s)"
  "snd (exec (AddSubscribers subs) s) = addSubscribers subs s"
  "snd (exec (GetRepository e) s) = s"
  "snd (exec (GetMetadata e) s) = s"
  "snd (exec (GetBroadcaster e) s) = s"
  by (simp_all add: case_prod_unfold split: sum.splits)

lemma exec_metadatas:
  "metadatas (conn (snd (exec c s))) = metadatas (conn s) @ registered_metadatas [c]"
  by (cases c) (simp_all del: exec.simps add: snd_exec connect_frame close_frame addMetadatas_eq addSubscribers_eq split: sum.splits)

lemma exec_broadcasters:
  "\<exists>bs. broadcasters (conn (snd (exec c s))) = broadcasters (conn s) @ bs \<and>
        map entityClass bs = map target (registered_metadatas [c])"
  by (cases c) (simp_all del: exec.simps add: snd_exec connect_frame close_frame addMetadatas_eq addSubscribers_eq split: sum.splits)

lemma exec_pairs:
  "\<exists>ps. repositoryAndMetadatas (conn (snd (exec c s))) = repositoryAndMetadatas (conn s) @ ps \<and>
        map metadata ps = registered_metadatas [c]"
proof (cases c)
  case (AddMetadatas ms)
  have "map metadata (map (\<lambda>i. \<lparr>repository = f i, metadata = ms ! i\<rparr>) [0..<length ms]) = ms" for f
    by (rule nth_equalityI) simp_all
  then show ?thesis using AddMetadatas by (simp del: exec.simps add: snd_exec addMetadatas_eq)
qed (simp_all del: exec.simps add: snd_exec connect_frame close_frame addSubscribers_eq split: sum.splits)

lemma exec_next_ref: "next_ref s \<le> next_ref (snd (exec c s))"
  by (cases c) (simp_all del: exec.simps add: snd_exec connect_frame close_frame addMetadatas_eq addSubscribers_eq split: sum.splits)

lemma exec_arrays: "r < next_ref s \<Longrightarrow> arrays (snd (exec c s)) r = arrays s r"
  by (cases c) (simp_all del: exec.simps add: snd_exec connect_frame close_frame addMetadatas_eq addSubscribers_eq split: sum.splits)

lemma exec_current_subscribers:
  "current_subscribers (snd (exec c s)) = current_subscribers s @ registered_subscribers [c]"
  by (cases c)
    (simp_all del: exec.simps add: snd_exec current_subscribers_def read_array_def connect_frame close_frame
      addMetadatas_eq addSubscribers_eq split: sum.splits)

subsection \<open>Sequences of calls\<close>

lemma run_append: "run (cs @ cs') s = run cs' (run cs s)"
  by (induction cs arbitrary: s) simp_all

lemma registered_metadatas_Cons:
  "registered_metadatas (c # cs) = registered_metadatas [c] @ registered_metadatas cs"
  by (cases c) simp_all

lemma registered_metadatas_append:
  "registered_metadatas (cs @ cs') = registered_metadatas cs @ registered_metadatas cs'"
  by (induction cs rule: registered_metadatas.induct) simp_all

lemma registered_subscribers_Cons:
  "registered_subscribers (c # cs) = registered_subscribers [c] @ registered_subscribers cs"
  by (cases c) simp_all

lemma registered_subscribers_append:
  "registered_subscribers (cs @ cs') = registered_subscribers cs @ registered_subscribers cs'"
  by (induction cs rule: registered_subscribers.induct) simp_all

lemma run_metadatas:
  "metadatas (conn (run cs s)) = metadatas (conn s) @ registered_metadatas cs"
proof (induction cs arbitrary: s)
  case Nil
  then show ?case by simp
next
  case (Cons c cs)
  show ?case
    using Cons.IH [of "snd (exec c s)"] exec_metadatas [of c s] registered_metadatas_Cons [of c cs]
    by simp
qed

lemma run_broadcasters:
  "\<exists>bs. broadcasters (conn (run cs s)) = broadcasters (conn s) @ bs \<and>
        map entityClass bs = map target (registered_metadatas cs)"
proof (induction cs arbitrary: s)
  case Nil
  then show ?case by simp
next
  case (Cons c cs)
  obtain bs where bs: "broadcasters (conn (snd (exec c s))) = broadcasters (conn s) @ bs"
      "map entityClass bs = map target (registered_metadatas [c])"
    using exec_broadcasters [of c s] by blast
  obtain bs' where bs': "broadcasters (conn (run cs (snd (exec c s)))) =
        broadcasters (conn (snd (exec c s))) @ bs'"
      "map entityClass bs' = map target (registered_metadatas cs)"
    using Cons.IH [of "snd (exec c s)"] by blast
  have "broadcasters (conn (run (c # cs) s)) = broadcasters (conn s) @ (bs @ bs')"
    using bs(1) bs'(1) by simp
  moreover have "map entityClass (bs @ bs') = map target (registered_metadatas (c # cs))"
    using bs(2) bs'(2) registered_metadatas_Cons [of c cs] by simp
  ultimately show ?case by blast
qed

lemma run_pairs:
  "\<exists>ps. repositoryAndMetadatas (conn (run cs s)) = repositoryAndMetadatas (conn s) @ ps \<and>
        map metadata ps = registered_metadatas cs"
proof (induction cs arbitrary: s)
  case Nil
  then show ?case by simp
next
  case (Cons c cs)
  obtain ps where ps: "repositoryAndMetadatas (conn (snd (exec c s))) = repositoryAndMetadatas (conn s) @ ps"
      "map metadata ps = registered_metadatas [c]"
    using exec_pairs [of c s] by blast
  obtain ps' where ps': "repositoryAndMetadatas (conn (run cs (snd (exec c s)))) =
        repositoryAndMetadatas (conn (snd (exec c s))) @ ps'"
      "map metadata ps' = registered_metadatas cs"
    using Cons.IH [of "snd (exec c s)"] by blast
  have "repositoryAndMetadatas (conn (run (c # cs) s)) = repositoryAndMetadatas (conn s) @ (ps @ ps')"
    using ps(1) ps'(1) by simp
  moreover have "map metadata (ps @ ps') = registered_metadatas (c # cs)"
    using ps(2) ps'(2) registered_metadatas_Cons [of c cs] by simp
  ultimately show ?case by blast
qed

lemma run_next_ref: "next_ref s \<le> next_ref (run cs s)"
proof (induction cs arbitrary: s)
  case Nil
  then show ?case by simp
next
  case (Cons c cs)
  show ?case
    using Cons.IH [of "snd (exec c s)"] exec_next_ref [of s c] by simp
qed

lemma run_arrays: "r < next_ref s \<Longrightarrow> arrays (run cs s) r = arrays s r"
proof (induction cs arbitrary: s)
  case Nil
  then show ?case by simp
next
  case (Cons c cs)
  have "r < next_ref (snd (exec c s))"
    using Cons.prems exec_next_ref [of s c] by simp
  then show ?case
    using Cons.IH [of "snd (exec c s)"] exec_arrays [OF Cons.prems, of c] by simp
qed

lemma run_current_subscribers:
  "current_subscribers (run cs s) = current_subscribers s @ registered_subscribers cs"
proof (induction cs arbitrary: s)
  case Nil
  then show ?case by simp
next
  case (Cons c cs)
  show ?case
    using Cons.IH [of "snd (exec c s)"] exec_current_subscribers [of c s]
      registered_subscribers_Cons [of c cs]
    by simp
qed

subsection \<open>The invariant\<close>

lemma registry_inv_new: "registry_inv (new_Connection nm)"
  by (simp add: registry_inv_def new_Connection_def)

lemma registry_inv_addSubscribers:
  assumes "registry_inv s"
  shows "registry_inv (addSubscribers subs s)"
proof -
  have "getBroadcaster (conn (addSubscribers subs s)) t = getBroadcaster (conn s) t" for t
    by (rule getBroadcaster_cong) (simp add: addSubscribers_eq)
  then show ?thesis
    using assms by (auto simp: registry_inv_def addSubscribers_eq less_Suc_eq)
qed

lemma registry_inv_addMetadatas:
  assumes "registry_inv s"
  shows "registry_inv (snd (addMetadatas ms s))"
proof -
  let ?s' = "snd (addMetadatas ms s)"
  let ?bs = "broadcasters (conn s) @ new_broadcasters s ms"
  have bs: "broadcasters (conn ?s') = ?bs"
    by (simp add: addMetadatas_eq)
  have subs: "subscribers (conn ?s') < next_ref ?s'"
    using assms by (simp add: registry_inv_def addMetadatas_eq)
  have nr: "next_ref ?s' = next_ref s + 2 * length ms"
    by (simp add: addMetadatas_eq)
  have b: "broadcaster_id b < next_ref ?s' \<and> subscribers_ref b < next_ref ?s'"
    if "b \<in> set (broadcasters (conn ?s'))" for b
  proof -
    from that bs consider "b \<in> set (broadcasters (conn s))" | "b \<in> set (new_broadcasters s ms)"
      by auto
    then show ?thesis
    proof cases
      case 1
      then show ?thesis using assms nr by (auto simp: registry_inv_def)
    next
      case 2
      then show ?thesis using assms nr by (auto simp: registry_inv_def new_broadcasters_def)
    qed
  qed
  have p: "repository_id (repository p) < next_ref ?s' \<and>
      getBroadcaster (conn ?s') (target (metadata p)) = Inr (repo_broadcaster (repository p))"
    if "p \<in> set (repositoryAndMetadatas (conn ?s'))" for p
  proof -
    from that consider "p \<in> set (repositoryAndMetadatas (conn s))"
      | i where "i < length ms"
          "p = \<lparr>repository = \<lparr>repository_id = next_ref s + length ms + i, repo_metadata = ms ! i,
                  repo_broadcaster = first_broadcaster ?bs (target (ms ! i))\<rparr>, metadata = ms ! i\<rparr>"
      by (auto simp: addMetadatas_eq)
    then show ?thesis
    proof cases
      case 1
      then have "getBroadcaster (conn s) (target (metadata p)) = Inr (repo_broadcaster (repository p))"
          and "repository_id (repository p) < next_ref s"
        using assms by (auto simp: registry_inv_def)
      then show ?thesis
        using getBroadcaster_append [OF _ bs] nr by simp
    next
      case 2
      have "target (ms ! i) \<in> target ` set ms"
        using 2(1) by simp
      also have "\<dots> = entityClass ` set (new_broadcasters s ms)"
        using map_entityClass_new_broadcasters [of s ms] by (metis set_map)
      finally have "target (ms ! i) \<in> entityClass ` set (broadcasters (conn ?s'))"
        using bs by auto
      from getBroadcaster_found [OF this] show ?thesis
        using 2 nr bs by simp
    qed
  qed
  show ?thesis
    unfolding registry_inv_def using subs b p by blast
qed

lemma registry_inv_exec: "registry_inv s \<Longrightarrow> registry_inv (snd (exec c s))"
proof (cases c)
  case (Connect opts dr sr)
  assume "registry_inv s"
  then show ?thesis
    using Connect getBroadcaster_cong [of "conn (snd (connect opts dr sr s))" "conn s"]
    by (simp del: exec.simps add: snd_exec registry_inv_def connect_frame)
next
  case (Close dr)
  assume "registry_inv s"
  then show ?thesis
    using Close by (simp del: exec.simps add: snd_exec registry_inv_def close_frame)
qed (simp_all del: exec.simps add: snd_exec registry_inv_addMetadatas registry_inv_addSubscribers)

lemma registry_inv_run: "registry_inv s \<Longrightarrow> registry_inv (run cs s)"
  by (induction cs arbitrary: s) (simp_all add: registry_inv_exec)

subsection \<open>The log of connect\<close>

lemma connect_events_eq:
  "connect_events opts dr sr s =
     DriverConnect opts #
       (case dr of
          Pending \<Rightarrow> []
        | Rejected e \<Rightarrow> [DriverConnectRejected e]
        | Fulfilled \<Rightarrow> DriverConnectResolved # (if autoSchemaCreate opts = Some True then [SchemaCreate] else []))"
  by (simp add: connect_events_def connect_def Let_def split: settlement.splits)

lemma connect_log: "log (snd (connect opts dr sr s)) = log s @ connect_events opts dr sr s"
  by (simp add: connect_events_def connect_def Let_def split: settlement.splits)

subsection \<open>The lookups as first matches\<close>

lemma find_first_index:
  "List.find P xs = Some x \<longleftrightarrow> (\<exists>i<length xs. xs ! i = x \<and> P x \<and> (\<forall>j<i. \<not> P (xs ! j)))"
  unfolding find_Some_iff by blast

lemma getMetadata_Inr:
  "getMetadata c e = Inr m \<longleftrightarrow> List.find (\<lambda>m. target m = e) (metadatas c) = Some m"
  by (simp add: getMetadata_def split: option.splits)

lemma getBroadcaster_Inr:
  "getBroadcaster c e = Inr b \<longleftrightarrow> List.find (\<lambda>b. entityClass b = e) (broadcasters c) = Some b"
  by (simp add: getBroadcaster_def split: option.splits)

lemma getRepository_Inr:
  "getRepository c e = Inr r \<longleftrightarrow>
     (\<exists>m. getMetadata c e = Inr m \<and>
        (\<exists>p. List.find (\<lambda>repoMeta. metadata repoMeta = m) (repositoryAndMetadatas c) = Some p \<and>
             repository p = r))"
  by (auto simp: getRepository_def split: option.splits sum.splits)

lemma getMetadata_first_match:
  "getMetadata c e = Inr m \<longleftrightarrow>
     (\<exists>i<length (metadatas c). metadatas c ! i = m \<and> target m = e \<and>
        (\<forall>j<i. target (metadatas c ! j) \<noteq> e))"
  unfolding getMetadata_Inr find_first_index ..

lemma getBroadcaster_first_match:
  "getBroadcaster c e = Inr b \<longleftrightarrow>
     (\<exists>i<length (broadcasters c). broadcasters c ! i = b \<and> entityClass b = e \<and>
        (\<forall>j<i. entityClass (broadcasters c ! j) \<noteq> e))"
  unfolding getBroadcaster_Inr find_first_index ..

lemma getRepository_first_match:
  "getRepository c e = Inr r \<longleftrightarrow>
     (\<exists>m. getMetadata c e = Inr m \<and>
        (\<exists>i<length (repositoryAndMetadatas c).
           metadata (repositoryAndMetadatas c ! i) = m \<and> repository (repositoryAndMetadatas c ! i) = r \<and>
           (\<forall>j<i. metadata (repositoryAndMetadatas c ! j) \<noteq> m)))"
  unfolding getRepository_Inr find_first_index by blast

lemma getMetadata_Inl:
  "getMetadata c e = Inl err \<longleftrightarrow> err = MetadataNotFoundError e \<and> e \<notin> target ` set (metadatas c)"
proof -
  have "List.find (\<lambda>m. target m = e) (metadatas c) = None \<longleftrightarrow> e \<notin> target ` set (metadatas c)"
    by (auto simp: find_None_iff)
  then show ?thesis
    by (cases "List.find (\<lambda>m. target m = e) (metadatas c)") (auto simp: getMetadata_def)
qed

lemma getBroadcaster_Inl:
  "getBroadcaster c e = Inl err \<longleftrightarrow>
     err = BroadcasterNotFoundError e \<and> e \<notin> entityClass ` set (broadcasters c)"
proof -
  have "List.find (\<lambda>b. entityClass b = e) (broadcasters c) = None \<longleftrightarrow>
      e \<notin> entityClass ` set (broadcasters c)"
    by (auto simp: find_None_iff)
  then show ?thesis
    by (cases "List.find (\<lambda>b. entityClass b = e) (broadcasters c)") (auto simp: getBroadcaster_def)
qed

lemma getRepository_paired:
  assumes "map metadata (repositoryAndMetadatas c) = metadatas c"
  shows "getRepository c e \<noteq> Inl (RepositoryNotFoundError x)"
    and "e \<in> target ` set (metadatas c) \<Longrightarrow> \<exists>r. getRepository c e = Inr r"
proof -
  have found: "List.find (\<lambda>repoMeta. metadata repoMeta = m) (repositoryAndMetadatas c) \<noteq> None"
    if "getMetadata c e = Inr m" for m
  proof -
    from that have "m \<in> set (metadatas c)"
      unfolding getMetadata_first_match by auto
    then have "m \<in> metadata ` set (repositoryAndMetadatas c)"
      using assms by (metis set_map)
    then show ?thesis by (auto simp: find_None_iff)
  qed
  show "getRepository c e \<noteq> Inl (RepositoryNotFoundError x)"
  proof (cases "getMetadata c e")
    case (Inl err)
    then show ?thesis
      using getMetadata_Inl [of c e err] by (simp add: getRepository_def)
  next
    case (Inr m)
    then show ?thesis
      using found [OF Inr] by (auto simp: getRepository_def)
  qed
  show "\<exists>r. getRepository c e = Inr r" if "e \<in> target ` set (metadatas c)"
  proof (cases "getMetadata c e")
    case (Inl err)
    then show ?thesis
      using getMetadata_Inl [of c e err] that by simp
  next
    case (Inr m)
    then show ?thesis
      using found [OF Inr] by (auto simp: getRepository_def)
  qed
qed

subsection \<open>States reached from a new connection\<close>

lemma reachable_metadatas:
  "metadatas (conn (run cs (new_Connection nm))) = registered_metadatas cs"
  using run_metadatas [of cs "new_Connection nm"] by (simp add: new_Connection_def)

lemma reachable_broadcasters:
  "map entityClass (broadcasters (conn (run cs (new_Connection nm)))) =
     map target (registered_metadatas cs)"
  using run_broadcasters [of cs "new_Connection nm"] by (auto simp: new_Connection_def)

lemma reachable_pairs:
  "map metadata (repositoryAndMetadatas (conn (run cs (new_Connection nm)))) = registered_metadatas cs"
  using run_pairs [of cs "new_Connection nm"] by (auto simp: new_Connection_def)

lemma reachable_subscribers:
  "current_subscribers (run cs (new_Connection nm)) = registered_subscribers cs"
  using run_current_subscribers [of cs "new_Connection nm"]
  by (simp add: current_subscribers_def read_array_def new_Connection_def)

lemma reachable_inv: "registry_inv (run cs (new_Connection nm))"
  by (simp add: registry_inv_run registry_inv_new)

lemma map_nth_eq: "map f xs = ys \<Longrightarrow> i < length ys \<Longrightarrow> f (xs ! i) = ys ! i"
  by (metis length_map nth_map)

subsection \<open>Identities are distinct\<close>

lemma distinct_ids_new: "distinct_ids (new_Connection nm)"
  by (simp add: distinct_ids_def new_Connection_def)

lemma distinct_fresh:
  assumes "distinct (map f xs)" and "\<forall>x \<in> set xs. f x < k" and "\<forall>i<n. f (g i) = k + d + i"
  shows "distinct (map f (xs @ map g [0..<n]))"
proof -
  have new: "map f (map g [0..<n]) = map (\<lambda>i. k + d + i) [0..<n]"
    using assms(3) by simp
  have "distinct (map (\<lambda>i. k + d + i) [0..<n])"
    by (simp add: distinct_map inj_on_def)
  moreover have "set (map f xs) \<inter> set (map (\<lambda>i. k + d + i) [0..<n]) = {}"
    using assms(2) by auto
  ultimately show ?thesis
    using assms(1) new by (simp only: map_append distinct_append)
qed

lemma distinct_ids_addMetadatas:
  assumes "registry_inv s" and "distinct_ids s"
  shows "distinct_ids (snd (addMetadatas ms s))"
proof -
  have "distinct (map broadcaster_id (broadcasters (conn s) @ new_broadcasters s ms))"
    unfolding new_broadcasters_def
    by (rule distinct_fresh [where k = "next_ref s" and d = 0])
       (use assms in \<open>auto simp: registry_inv_def distinct_ids_def\<close>)
  moreover have "distinct (map (\<lambda>p. repository_id (repository p))
      (repositoryAndMetadatas (conn s) @
        map (\<lambda>i. \<lparr>repository = \<lparr>repository_id = next_ref s + length ms + i, repo_metadata = ms ! i,
                       repo_broadcaster = first_broadcaster
                         (broadcasters (conn s) @ new_broadcasters s ms) (target (ms ! i))\<rparr>,
                   metadata = ms ! i\<rparr>) [0..<length ms]))"
    by (rule distinct_fresh [where k = "next_ref s" and d = "length ms"])
       (use assms in \<open>auto simp: registry_inv_def distinct_ids_def\<close>)
  ultimately show ?thesis
    by (simp add: distinct_ids_def addMetadatas_eq)
qed

lemma distinct_ids_exec:
  assumes "registry_inv s" and "distinct_ids s"
  shows "distinct_ids (snd (exec c s))"
proof (cases c)
  case (AddMetadatas ms)
  then show ?thesis
    using distinct_ids_addMetadatas [OF assms] by (simp del: exec.simps add: snd_exec)
qed (use assms in \<open>simp_all del: exec.simps add: snd_exec distinct_ids_def connect_frame close_frame
      addSubscribers_eq\<close>)

lemma distinct_ids_run: "registry_inv s \<Longrightarrow> distinct_ids s \<Longrightarrow> distinct_ids (run cs s)"
  by (induction cs arbitrary: s) (simp_all add: registry_inv_exec distinct_ids_exec)

lemma reachable_distinct_ids: "distinct_ids (run cs (new_Connection nm))"
  by (simp add: distinct_ids_run registry_inv_new distinct_ids_new)

subsection \<open>Subscriber views\<close>

lemma reachable_view_frozen:
  assumes "b \<in> set (broadcasters (conn (run cs (new_Connection nm))))"
  shows "subscriber_view (run (cs @ cs') (new_Connection nm)) b =
         subscriber_view (run cs (new_Connection nm)) b"
proof -
  have "subscribers_ref b < next_ref (run cs (new_Connection nm))"
    using reachable_inv [of cs nm] assms by (simp add: registry_inv_def)
  from run_arrays [OF this, of cs'] show ?thesis
    by (simp add: subscriber_view_def read_array_def run_append)
qed

lemma addMetadatas_one:
  "snd (addMetadatas [M] s) =
     s\<lparr>conn := (conn s)
            \<lparr>metadatas := metadatas (conn s) @ [M],
             broadcasters := broadcasters (conn s) @
               [\<lparr>broadcaster_id = next_ref s, subscribers_ref = subscribers (conn s),
                 entityClass = target M\<rparr>],
             repositoryAndMetadatas := repositoryAndMetadatas (conn s) @
               [\<lparr>repository =
                   \<lparr>repository_id = Suc (next_ref s), repo_metadata = M,
                    repo_broadcaster =
                      first_broadcaster
                        (broadcasters (conn s) @
                           [\<lparr>broadcaster_id = next_ref s, subscribers_ref = subscribers (conn s),
                             entityClass = target M\<rparr>]) (target M)\<rparr>,
                 metadata = M\<rparr>]\<rparr>,
       next_ref := Suc (Suc (next_ref s))\<rparr>"
  by (simp add: addMetadatas_eq new_broadcasters_def)

lemma new_target_view:
  assumes "target M \<notin> target ` set (registered_metadatas cs)"
  shows "getBroadcasterSubscribers (run (cs @ AddMetadatas [M] # cs') (new_Connection nm)) (target M) =
         Inr (registered_subscribers cs)"
proof -
  let ?s = "run cs (new_Connection nm)"
  let ?s1 = "snd (addMetadatas [M] ?s)"
  let ?s2 = "run cs' ?s1"
  let ?b = "\<lparr>broadcaster_id = next_ref ?s, subscribers_ref = subscribers (conn ?s),
             entityClass = target M\<rparr>"
  have s2: "run (cs @ AddMetadatas [M] # cs') (new_Connection nm) = ?s2"
    by (simp del: exec.simps add: run_append snd_exec)
  have "entityClass ` set (broadcasters (conn ?s)) = target ` set (registered_metadatas cs)"
    using reachable_broadcasters [of cs nm] by (metis set_map)
  then have "target M \<notin> entityClass ` set (broadcasters (conn ?s))"
    using assms by simp
  then have none: "List.find (\<lambda>b. entityClass b = target M) (broadcasters (conn ?s)) = None"
    by (force simp: find_None_iff)
  have b1: "getBroadcaster (conn ?s1) (target M) = Inr ?b"
    using none by (simp add: getBroadcaster_def addMetadatas_one find_append)
  obtain bs where "broadcasters (conn ?s2) = broadcasters (conn ?s1) @ bs"
    using run_broadcasters [of cs' ?s1] by blast
  from getBroadcaster_append [OF b1 this] have b2: "getBroadcaster (conn ?s2) (target M) = Inr ?b" .
  have "subscribers (conn ?s) < next_ref ?s"
    using reachable_inv [of cs nm] by (simp add: registry_inv_def)
  then have "subscribers (conn ?s) < next_ref ?s1"
    by (simp add: addMetadatas_one)
  from run_arrays [OF this, of cs']
  have "arrays ?s2 (subscribers (conn ?s)) = arrays ?s (subscribers (conn ?s))"
    by (simp add: addMetadatas_one)
  then have "subscriber_view ?s2 ?b = current_subscribers ?s"
    by (simp add: subscriber_view_def current_subscribers_def read_array_def)
  then show ?thesis
    unfolding s2 by (simp add: getBroadcasterSubscribers_def b2 reachable_subscribers)
qed

subsection \<open>What one call of addMetadatas creates\<close>

lemma find_first_at:
  assumes "n < length xs" and "P (xs ! n)" and "\<forall>x \<in> set (take n xs). \<not> P x"
  shows "List.find P xs = Some (xs ! n)"
proof -
  have "\<not> P (xs ! j)" if "j < n" for j
  proof -
    have "j < length (take n xs)"
      using that assms(1) by simp
    then have "take n xs ! j \<in> set (take n xs)"
      by (rule nth_mem)
    then have "xs ! j \<in> set (take n xs)"
      using that by simp
    then show ?thesis using assms(3) by blast
  qed
  then show ?thesis
    unfolding find_Some_iff using assms(1,2) by blast
qed

lemma find_before:
  assumes "List.find P xs = Some y" and "x \<in> set (take n xs)" and "P x"
  shows "\<exists>k<n. k < length xs \<and> y = xs ! k"
proof -
  obtain k where k: "k < length xs" "P (xs ! k)" "y = xs ! k" "\<forall>j<k. \<not> P (xs ! j)"
    using assms(1) unfolding find_Some_iff by blast
  obtain j where "j < length (take n xs)" "take n xs ! j = x"
    using assms(2) unfolding in_set_conv_nth by blast
  then have j: "j < n" "j < length xs" "xs ! j = x"
    by simp_all
  have "\<not> j < k"
    using k(4) j(3) assms(3) by blast
  then have "k < n"
    using j(1) by simp
  then show ?thesis using k by blast
qed

lemma addMetadatas_None: "fst (addMetadatas ms s) = None"
  by (simp add: addMetadatas_eq)

lemma addMetadatas_lengths:
  "length (metadatas (conn (snd (addMetadatas ms s)))) = length (metadatas (conn s)) + length ms"
  "length (broadcasters (conn (snd (addMetadatas ms s)))) = length (broadcasters (conn s)) + length ms"
  "length (repositoryAndMetadatas (conn (snd (addMetadatas ms s)))) =
     length (repositoryAndMetadatas (conn s)) + length ms"
  by (simp_all add: addMetadatas_eq)

lemma addMetadatas_broadcasters:
  "broadcasters (conn (snd (addMetadatas ms s))) = broadcasters (conn s) @ new_broadcasters s ms"
  by (simp add: addMetadatas_eq)

lemma created_broadcaster_eq:
  assumes "i < length ms"
  shows "created_broadcaster s (snd (addMetadatas ms s)) i =
         \<lparr>broadcaster_id = next_ref s + i, subscribers_ref = subscribers (conn s),
          entityClass = target (ms ! i)\<rparr>"
  using assms
  by (simp add: created_broadcaster_def addMetadatas_broadcasters nth_append new_broadcasters_def)

lemma created_pair_eq:
  assumes "i < length ms"
  shows "created_pair s (snd (addMetadatas ms s)) i =
         \<lparr>repository =
            \<lparr>repository_id = next_ref s + length ms + i, repo_metadata = ms ! i,
             repo_broadcaster =
               first_broadcaster (broadcasters (conn (snd (addMetadatas ms s)))) (target (ms ! i))\<rparr>,
          metadata = ms ! i\<rparr>"
  using assms
  by (simp add: created_pair_def addMetadatas_broadcasters nth_append) (simp add: addMetadatas_eq)

lemma created_pair_bound:
  assumes "i < length ms"
  shows "getBroadcaster (conn (snd (addMetadatas ms s))) (target (ms ! i)) =
         Inr (repo_broadcaster (repository (created_pair s (snd (addMetadatas ms s)) i)))"
proof -
  have "target (ms ! i) \<in> target ` set ms"
    using assms by simp
  also have "\<dots> = entityClass ` set (new_broadcasters s ms)"
    using map_entityClass_new_broadcasters [of s ms] by (metis set_map)
  finally have "target (ms ! i) \<in> entityClass ` set (broadcasters (conn (snd (addMetadatas ms s))))"
    by (auto simp: addMetadatas_broadcasters)
  from getBroadcaster_found [OF this] show ?thesis
    by (simp add: created_pair_eq [OF assms])
qed

lemma created_pair_fresh_iff:
  assumes "registry_inv s" and "distinct_ids s" and "i < length ms"
  shows "repo_broadcaster (repository (created_pair s (snd (addMetadatas ms s)) i)) =
           created_broadcaster s (snd (addMetadatas ms s)) i \<longleftrightarrow>
         target (ms ! i) \<notin> entityClass `
           set (take (length (broadcasters (conn s)) + i) (broadcasters (conn (snd (addMetadatas ms s)))))"
proof -
  let ?s' = "snd (addMetadatas ms s)"
  let ?all = "broadcasters (conn ?s')"
  let ?n = "length (broadcasters (conn s)) + i"
  let ?P = "\<lambda>b. entityClass b = target (ms ! i)"
  have n: "?n < length ?all"
    using assms(3) by (simp add: addMetadatas_lengths)
  have fresh: "created_broadcaster s ?s' i = ?all ! ?n"
    by (simp add: created_broadcaster_def)
  have Pn: "?P (?all ! ?n)"
    using created_broadcaster_eq [OF assms(3), of s] by (simp add: fresh [symmetric])
  have found: "List.find ?P ?all = Some (repo_broadcaster (repository (created_pair s ?s' i)))"
    using created_pair_bound [OF assms(3), of s] by (simp add: getBroadcaster_Inr)
  have "distinct (map broadcaster_id ?all)"
    using distinct_ids_addMetadatas [OF assms(1,2), of ms] by (simp add: distinct_ids_def)
  then have dist: "distinct ?all"
    by (simp add: distinct_map)
  show ?thesis
  proof
    assume eq: "repo_broadcaster (repository (created_pair s ?s' i)) = created_broadcaster s ?s' i"
    show "target (ms ! i) \<notin> entityClass ` set (take ?n ?all)"
    proof
      assume "target (ms ! i) \<in> entityClass ` set (take ?n ?all)"
      then obtain x where x: "x \<in> set (take ?n ?all)" "?P x"
        by auto
      from find_before [OF found x] obtain k where k: "k < ?n" "k < length ?all"
          "repo_broadcaster (repository (created_pair s ?s' i)) = ?all ! k"
        by blast
      then have "?all ! k = ?all ! ?n"
        using eq fresh by simp
      then have "k = ?n"
        using dist k(2) n by (simp add: nth_eq_iff_index_eq)
      then show False using k(1) by simp
    qed
  next
    assume "target (ms ! i) \<notin> entityClass ` set (take ?n ?all)"
    then have "\<forall>x \<in> set (take ?n ?all). \<not> ?P x"
      by force
    from find_first_at [OF n Pn this] found show
      "repo_broadcaster (repository (created_pair s ?s' i)) = created_broadcaster s ?s' i"
      by (simp add: fresh)
  qed
qed

subsection \<open>Lookups after a registration\<close>

lemma reachable_repository_broadcaster:
  assumes "getRepository (conn (run cs (new_Connection nm))) e = Inr r"
  shows "getBroadcaster (conn (run cs (new_Connection nm))) e = Inr (repo_broadcaster r)"
proof -
  let ?c = "conn (run cs (new_Connection nm))"
  obtain m p where m: "getMetadata ?c e = Inr m"
    and p: "List.find (\<lambda>repoMeta. metadata repoMeta = m) (repositoryAndMetadatas ?c) = Some p"
    and r: "repository p = r"
    using assms unfolding getRepository_Inr by blast
  have "p \<in> set (repositoryAndMetadatas ?c)" and "metadata p = m"
    using p unfolding find_Some_iff by auto
  moreover have "target m = e"
    using m unfolding getMetadata_first_match by blast
  ultimately show ?thesis
    using reachable_inv [of cs nm] r by (auto simp: registry_inv_def)
qed

lemma getMetadata_snoc:
  "getMetadata (c\<lparr>metadatas := metadatas c @ [M]\<rparr>) (target M) =
     (if target M \<in> target ` set (metadatas c) then getMetadata c (target M) else Inr M)"
proof (cases "List.find (\<lambda>m. target m = target M) (metadatas c)")
  case None
  then have "target M \<notin> target ` set (metadatas c)"
    by (force simp: find_None_iff)
  then show ?thesis
    using None by (simp add: getMetadata_def find_append)
next
  case (Some m)
  then have "m \<in> set (metadatas c)" and "target m = target M"
    unfolding find_Some_iff by auto
  then have "target M \<in> target ` set (metadatas c)"
    by (metis imageI)
  then show ?thesis
    using Some by (simp add: getMetadata_def find_append)
qed

lemma getMetadata_cong:
  "metadatas c = metadatas c' \<Longrightarrow> getMetadata c e = getMetadata c' e"
  by (simp add: getMetadata_def)

lemma paired_first_pair:
  assumes al: "map metadata (repositoryAndMetadatas c) = metadatas c"
    and r: "getRepository c e = Inr r"
  shows "\<exists>j<length (repositoryAndMetadatas c).
           r = repository (repositoryAndMetadatas c ! j) \<and>
           target (metadata (repositoryAndMetadatas c ! j)) = e \<and>
           (\<forall>j'<j. target (metadata (repositoryAndMetadatas c ! j')) \<noteq> e)"
proof -
  let ?ps = "repositoryAndMetadatas c"
  obtain m i0 where m: "getMetadata c e = Inr m"
    and i0: "i0 < length ?ps" "metadata (?ps ! i0) = m" "repository (?ps ! i0) = r"
      "\<forall>j<i0. metadata (?ps ! j) \<noteq> m"
    using r unfolding getRepository_first_match by blast
  obtain i1 where i1: "i1 < length (metadatas c)" "metadatas c ! i1 = m" "target m = e"
      "\<forall>j<i1. target (metadatas c ! j) \<noteq> e"
    using m unfolding getMetadata_first_match by blast
  have nth: "metadata (?ps ! j) = metadatas c ! j" if "j < length (metadatas c)" for j
    using map_nth_eq [OF al that] .
  have len: "length ?ps = length (metadatas c)"
    using al by (metis length_map)
  have "\<not> i1 < i0"
    using i0(4) nth [OF i1(1)] i1(2) by auto
  then have le: "i0 \<le> i1" by simp
  have "target (metadata (?ps ! j')) \<noteq> e" if "j' < i0" for j'
  proof -
    have "j' < i1" using that le by simp
    moreover have "j' < length (metadatas c)" using that i0(1) len by simp
    ultimately show ?thesis using i1(4) nth by simp
  qed
  then show ?thesis
    using i0 i1(3) by blast
qed

lemma distinct_map_nth_neq:
  assumes "distinct (map f xs)" and "i < length xs" and "j < length xs" and "i \<noteq> j"
  shows "f (xs ! i) \<noteq> f (xs ! j)"
  using nth_eq_iff_index_eq [OF assms(1), of i j] assms(2-4) by simp

lemma registered_two:
  "registered_metadatas (cs @ AddMetadatas [M1] # mid @ [AddMetadatas [M2]]) =
     registered_metadatas cs @ M1 # registered_metadatas mid @ [M2]"
  by (simp add: registered_metadatas_append)

text \<open>The definitions that evaluate a sequence of calls on a concrete input.\<close>

lemmas registry_defs =
  new_Connection_def addMetadatas_def addSubscribers_def connect_def close_def
  createBroadcasterForMetadata_def createRepoMeta_def new_OrmBroadcaster_def new_Repository_def
  alloc_array_def read_array_def getBroadcaster_def getMetadata_def getRepository_def
  subscriber_view_def getBroadcasterSubscribers_def current_subscribers_def repositories_def
  settle_def awaited_def

section \<open>The claims\<close>

subsection \<open>Lookups of entity classes that were never registered\<close>

text \<open>
  Claim C1, as the code has it. Let an entity class \<open>e\<close> be the target of no metadata
  passed to \<open>addMetadatas\<close> in a sequence of calls on a new connection. Then
  \<open>getMetadata e\<close> throws \<open>MetadataNotFoundError e\<close> and \<open>getBroadcaster e\<close> throws
  \<open>BroadcasterNotFoundError e\<close>. \<open>getRepository e\<close> calls \<open>getMetadata\<close> first, so
  it throws \<open>MetadataNotFoundError e\<close> as well, and not \<open>RepositoryNotFoundError\<close>.
\<close>

theorem C1_unregistered_lookups_throw:
  assumes "e \<notin> target ` set (registered_metadatas cs)"
  shows "getMetadata (conn (run cs (new_Connection nm))) e = Inl (MetadataNotFoundError e) \<and>
         getBroadcaster (conn (run cs (new_Connection nm))) e = Inl (BroadcasterNotFoundError e) \<and>
         getRepository (conn (run cs (new_Connection nm))) e = Inl (MetadataNotFoundError e)"
proof -
  let ?c = "conn (run cs (new_Connection nm))"
  have m: "getMetadata ?c e = Inl (MetadataNotFoundError e)"
    using assms by (simp add: getMetadata_Inl reachable_metadatas)
  have "entityClass ` set (broadcasters ?c) = target ` set (registered_metadatas cs)"
    using reachable_broadcasters [of cs nm] by (metis set_map)
  then have b: "getBroadcaster ?c e = Inl (BroadcasterNotFoundError e)"
    using assms by (simp add: getBroadcaster_Inl)
  have "getRepository ?c e = Inl (MetadataNotFoundError e)"
    using m by (simp add: getRepository_def)
  with m b show ?thesis by simp
qed

theorem C1_witness:
  "5 \<notin> target ` set (registered_metadatas
      [AddSubscribers [1, 2], AddMetadatas [\<lparr>meta_id = 10, target = 7\<rparr>]]) \<and>
   getMetadata (conn (run [AddSubscribers [1, 2], AddMetadatas [\<lparr>meta_id = 10, target = 7\<rparr>]]
      (new_Connection ''db''))) 5 = Inl (MetadataNotFoundError 5) \<and>
   getBroadcaster (conn (run [AddSubscribers [1, 2], AddMetadatas [\<lparr>meta_id = 10, target = 7\<rparr>]]
      (new_Connection ''db''))) 5 = Inl (BroadcasterNotFoundError 5) \<and>
   getRepository (conn (run [AddSubscribers [1, 2], AddMetadatas [\<lparr>meta_id = 10, target = 7\<rparr>]]
      (new_Connection ''db''))) 5 = Inl (MetadataNotFoundError 5)"
proof -
  have h: "5 \<notin> target ` set (registered_metadatas
      [AddSubscribers [1, 2], AddMetadatas [\<lparr>meta_id = 10, target = 7\<rparr>]])"
    by simp
  from C1_unregistered_lookups_throw [OF h, of "''db''"] h show ?thesis
    by (intro conjI) (elim conjE, assumption)+
qed

text \<open>
  Claim C1 as stated fails on a registry with no metadata: \<open>getRepository\<close> of an entity
  class throws \<open>MetadataNotFoundError\<close>, not \<open>RepositoryNotFoundError\<close>.
\<close>

theorem C1_counterexample:
  "getRepository (conn (new_Connection ''db'')) 5 = Inl (MetadataNotFoundError 5) \<and>
   getRepository (conn (new_Connection ''db'')) 5 \<noteq> Inl (RepositoryNotFoundError 5)"
  by (simp add: getRepository_def getMetadata_def new_Connection_def)

subsection \<open>The subscriber view of a broadcaster\<close>

text \<open>
  Claim C2, as the code has it. A broadcaster of a reachable state keeps its subscriber
  view whatever is called afterwards: the view is frozen when the broadcaster is
  constructed. And when \<open>addMetadatas [M]\<close> is called with a target that was not
  registered before, the subscriber view of the broadcaster that \<open>getBroadcaster\<close>
  returns for that target is exactly the sequence of the subscribers registered by
  \<open>addSubscribers\<close> before the call, also after any later calls; a subscriber registered
  only after the call is not in it.
\<close>

theorem C2_subscriber_view_frozen:
  "(b \<in> set (broadcasters (conn (run cs (new_Connection nm)))) \<longrightarrow>
      subscriber_view (run (cs @ cs') (new_Connection nm)) b =
      subscriber_view (run cs (new_Connection nm)) b) \<and>
   (target M \<notin> target ` set (registered_metadatas cs) \<longrightarrow>
      getBroadcasterSubscribers (run (cs @ AddMetadatas [M] # cs') (new_Connection nm)) (target M) =
      Inr (registered_subscribers cs))"
  using reachable_view_frozen [of b cs nm cs'] new_target_view [of M cs cs' nm] by blast

theorem C2_witness:
  "7 \<notin> target ` set (registered_metadatas [AddSubscribers [1, 2]]) \<and>
   getBroadcasterSubscribers
     (run ([AddSubscribers [1, 2]] @ AddMetadatas [\<lparr>meta_id = 10, target = 7\<rparr>] #
           [AddMetadatas [\<lparr>meta_id = 11, target = 8\<rparr>], AddSubscribers [3]])
        (new_Connection ''db'')) 7 = Inr [1, 2] \<and>
   \<lparr>broadcaster_id = 2, subscribers_ref = 1, entityClass = 7\<rparr>
     \<in> set (broadcasters (conn (run [AddSubscribers [1, 2], AddMetadatas [\<lparr>meta_id = 10, target = 7\<rparr>]]
          (new_Connection ''db'')))) \<and>
   subscriber_view
     (run ([AddSubscribers [1, 2], AddMetadatas [\<lparr>meta_id = 10, target = 7\<rparr>]] @ [AddSubscribers [3]])
        (new_Connection ''db''))
     \<lparr>broadcaster_id = 2, subscribers_ref = 1, entityClass = 7\<rparr> = [1, 2]"
proof -
  have h1: "target \<lparr>meta_id = 10, target = 7\<rparr> \<notin> target ` set (registered_metadatas [AddSubscribers [1, 2]])"
    by simp
  have h2: "\<lparr>broadcaster_id = 2, subscribers_ref = 1, entityClass = 7\<rparr>
     \<in> set (broadcasters (conn (run [AddSubscribers [1, 2], AddMetadatas [\<lparr>meta_id = 10, target = 7\<rparr>]]
          (new_Connection ''db''))))"
    by (simp add: registry_defs)
  have v: "subscriber_view (run [AddSubscribers [1, 2], AddMetadatas [\<lparr>meta_id = 10, target = 7\<rparr>]]
        (new_Connection ''db'')) \<lparr>broadcaster_id = 2, subscribers_ref = 1, entityClass = 7\<rparr> = [1, 2]"
    by (simp add: registry_defs)
  have a: "getBroadcasterSubscribers
     (run ([AddSubscribers [1, 2]] @ AddMetadatas [\<lparr>meta_id = 10, target = 7\<rparr>] #
           [AddMetadatas [\<lparr>meta_id = 11, target = 8\<rparr>], AddSubscribers [3]])
        (new_Connection ''db'')) (target \<lparr>meta_id = 10, target = 7\<rparr>) =
      Inr (registered_subscribers [AddSubscribers [1, 2]])"
    using C2_subscriber_view_frozen [of _ "[AddSubscribers [1, 2]]" "''db''"
        "[AddMetadatas [\<lparr>meta_id = 11, target = 8\<rparr>], AddSubscribers [3]]" "\<lparr>meta_id = 10, target = 7\<rparr>"] h1
    by blast
  have b: "subscriber_view
     (run ([AddSubscribers [1, 2], AddMetadatas [\<lparr>meta_id = 10, target = 7\<rparr>]] @ [AddSubscribers [3]])
        (new_Connection ''db''))
     \<lparr>broadcaster_id = 2, subscribers_ref = 1, entityClass = 7\<rparr> =
     subscriber_view (run [AddSubscribers [1, 2], AddMetadatas [\<lparr>meta_id = 10, target = 7\<rparr>]]
        (new_Connection ''db'')) \<lparr>broadcaster_id = 2, subscribers_ref = 1, entityClass = 7\<rparr>"
    using C2_subscriber_view_frozen [of "\<lparr>broadcaster_id = 2, subscribers_ref = 1, entityClass = 7\<rparr>"
        "[AddSubscribers [1, 2], AddMetadatas [\<lparr>meta_id = 10, target = 7\<rparr>]]" "''db''"
        "[AddSubscribers [3]]"] h2
    by blast
  have "target \<lparr>meta_id = 10, target = 7\<rparr> = 7"
    and "registered_subscribers [AddSubscribers [1, 2]] = [1, 2]"
    by simp_all
  with a b v h1 h2 show ?thesis
    by (simp only:) simp
qed

text \<open>
  Claim C2 as stated fails when the target was registered before: \<open>getBroadcaster\<close>
  returns the first broadcaster of the target, constructed at the first registration, and
  subscriber \<open>1\<close>, registered before the second \<open>addMetadatas\<close>, is not in its view.
\<close>

theorem C2_counterexample:
  "registered_subscribers [AddMetadatas [\<lparr>meta_id = 10, target = 7\<rparr>], AddSubscribers [1]] = [1] \<and>
   getBroadcasterSubscribers
     (run [AddMetadatas [\<lparr>meta_id = 10, target = 7\<rparr>], AddSubscribers [1],
           AddMetadatas [\<lparr>meta_id = 11, target = 7\<rparr>]] (new_Connection ''db'')) 7 = Inr []"
  by (simp add: registry_defs)

subsection \<open>The broadcaster of a new repository\<close>

text \<open>
  Claim C3, as the code has it. \<open>addMetadatas\<close> never throws, and for every entry of its
  argument the created pair holds that entry, the created broadcaster is bound to the
  target of that entry, and the repository of the pair is bound to the broadcaster that
  \<open>getBroadcaster\<close> returns for the target after the call: the first broadcaster of the
  sequence with that target. That is the broadcaster created for the entry exactly when
  no broadcaster standing before it in the sequence, registered earlier or created for an
  earlier entry of the same call, is bound to the same target.
\<close>

theorem C3_repository_bound_to_first_broadcaster:
  assumes "i < length ms"
  shows "fst (addMetadatas ms (run cs (new_Connection nm))) = None \<and>
         length (broadcasters (conn (snd (addMetadatas ms (run cs (new_Connection nm)))))) =
           length (broadcasters (conn (run cs (new_Connection nm)))) + length ms \<and>
         length (repositoryAndMetadatas (conn (snd (addMetadatas ms (run cs (new_Connection nm)))))) =
           length (repositoryAndMetadatas (conn (run cs (new_Connection nm)))) + length ms \<and>
         metadata (created_pair (run cs (new_Connection nm))
            (snd (addMetadatas ms (run cs (new_Connection nm)))) i) = ms ! i \<and>
         entityClass (created_broadcaster (run cs (new_Connection nm))
            (snd (addMetadatas ms (run cs (new_Connection nm)))) i) = target (ms ! i) \<and>
         getBroadcaster (conn (snd (addMetadatas ms (run cs (new_Connection nm))))) (target (ms ! i)) =
           Inr (repo_broadcaster (repository (created_pair (run cs (new_Connection nm))
                  (snd (addMetadatas ms (run cs (new_Connection nm)))) i))) \<and>
         (repo_broadcaster (repository (created_pair (run cs (new_Connection nm))
              (snd (addMetadatas ms (run cs (new_Connection nm)))) i)) =
            created_broadcaster (run cs (new_Connection nm))
              (snd (addMetadatas ms (run cs (new_Connection nm)))) i \<longleftrightarrow>
          target (ms ! i) \<notin> entityClass `
            set (take (length (broadcasters (conn (run cs (new_Connection nm)))) + i)
                   (broadcasters (conn (snd (addMetadatas ms (run cs (new_Connection nm))))))))"
proof -
  let ?s = "run cs (new_Connection nm)"
  have "metadata (created_pair ?s (snd (addMetadatas ms ?s)) i) = ms ! i"
    by (simp add: created_pair_eq [OF assms])
  moreover have "entityClass (created_broadcaster ?s (snd (addMetadatas ms ?s)) i) = target (ms ! i)"
    by (simp add: created_broadcaster_eq [OF assms])
  ultimately show ?thesis
    using addMetadatas_None [of ms ?s] addMetadatas_lengths(2,3) [of ms ?s]
      created_pair_bound [OF assms, of ?s]
      created_pair_fresh_iff [OF reachable_inv reachable_distinct_ids assms, of cs nm]
    by blast
qed

theorem C3_witness:
  "(1::nat) < length [\<lparr>meta_id = 10, target = 7\<rparr>, \<lparr>meta_id = 11, target = 8\<rparr>] \<and>
   fst (addMetadatas [\<lparr>meta_id = 10, target = 7\<rparr>, \<lparr>meta_id = 11, target = 8\<rparr>]
          (run [AddSubscribers [1]] (new_Connection ''db''))) = None \<and>
   metadata (created_pair (run [AddSubscribers [1]] (new_Connection ''db''))
      (snd (addMetadatas [\<lparr>meta_id = 10, target = 7\<rparr>, \<lparr>meta_id = 11, target = 8\<rparr>]
         (run [AddSubscribers [1]] (new_Connection ''db'')))) 1) =
     [\<lparr>meta_id = 10, target = 7\<rparr>, \<lparr>meta_id = 11, target = 8\<rparr>] ! 1 \<and>
   getBroadcaster (conn (snd (addMetadatas [\<lparr>meta_id = 10, target = 7\<rparr>, \<lparr>meta_id = 11, target = 8\<rparr>]
         (run [AddSubscribers [1]] (new_Connection ''db'')))))
      (target ([\<lparr>meta_id = 10, target = 7\<rparr>, \<lparr>meta_id = 11, target = 8\<rparr>] ! 1)) =
     Inr (repo_broadcaster (repository (created_pair (run [AddSubscribers [1]] (new_Connection ''db''))
      (snd (addMetadatas [\<lparr>meta_id = 10, target = 7\<rparr>, \<lparr>meta_id = 11, target = 8\<rparr>]
         (run [AddSubscribers [1]] (new_Connection ''db'')))) 1)))"
proof -
  have h: "(1::nat) < length [\<lparr>meta_id = 10, target = 7\<rparr>, \<lparr>meta_id = 11, target = 8\<rparr>]"
    by simp
  from C3_repository_bound_to_first_broadcaster [OF h, of "[AddSubscribers [1]]" "''db''"] h
  show ?thesis by blast
qed

text \<open>
  Claim C3 as stated fails for an entry whose target is registered already: the
  repository created by the second call is bound to the broadcaster of the first call
  (address 1), not to the broadcaster created for its own entry (address 3).
\<close>

theorem C3_counterexample:
  "repo_broadcaster (repository (created_pair
      (run [AddMetadatas [\<lparr>meta_id = 10, target = 7\<rparr>]] (new_Connection ''db''))
      (snd (addMetadatas [\<lparr>meta_id = 11, target = 7\<rparr>]
         (run [AddMetadatas [\<lparr>meta_id = 10, target = 7\<rparr>]] (new_Connection ''db'')))) 0)) =
     \<lparr>broadcaster_id = 1, subscribers_ref = 0, entityClass = 7\<rparr> \<and>
   created_broadcaster
      (run [AddMetadatas [\<lparr>meta_id = 10, target = 7\<rparr>]] (new_Connection ''db''))
      (snd (addMetadatas [\<lparr>meta_id = 11, target = 7\<rparr>]
         (run [AddMetadatas [\<lparr>meta_id = 10, target = 7\<rparr>]] (new_Connection ''db'')))) 0 =
     \<lparr>broadcaster_id = 3, subscribers_ref = 0, entityClass = 7\<rparr> \<and>
   broadcasters (conn (run [AddMetadatas [\<lparr>meta_id = 10, target = 7\<rparr>]] (new_Connection ''db''))) =
     [\<lparr>broadcaster_id = 1, subscribers_ref = 0, entityClass = 7\<rparr>]"
  by (simp add: registry_defs created_pair_def created_broadcaster_def)

subsection \<open>Registering one metadata\<close>

text \<open>
  Claim C4, as the code has it. In every state reached from a new connection,
  \<open>addMetadatas [M]\<close> returns normally; the metadatas, the broadcasters and the
  repositories each grow by exactly one entry, with the prior entries unchanged and in
  their order; \<open>getRepository\<close> of the target of \<open>M\<close> returns a repository whose
  broadcaster is the one that \<open>getBroadcaster\<close> returns for that target; and
  \<open>getMetadata\<close> of the target returns \<open>M\<close> when the target was not registered before,
  and what it returned before the call otherwise.
\<close>

theorem C4_addMetadatas_one:
  "fst (addMetadatas [M] (run cs (new_Connection nm))) = None \<and>
   metadatas (conn (snd (addMetadatas [M] (run cs (new_Connection nm))))) =
     metadatas (conn (run cs (new_Connection nm))) @ [M] \<and>
   length (broadcasters (conn (snd (addMetadatas [M] (run cs (new_Connection nm)))))) =
     Suc (length (broadcasters (conn (run cs (new_Connection nm))))) \<and>
   take (length (broadcasters (conn (run cs (new_Connection nm)))))
     (broadcasters (conn (snd (addMetadatas [M] (run cs (new_Connection nm)))))) =
     broadcasters (conn (run cs (new_Connection nm))) \<and>
   length (repositories (conn (snd (addMetadatas [M] (run cs (new_Connection nm)))))) =
     Suc (length (repositories (conn (run cs (new_Connection nm))))) \<and>
   take (length (repositories (conn (run cs (new_Connection nm)))))
     (repositories (conn (snd (addMetadatas [M] (run cs (new_Connection nm)))))) =
     repositories (conn (run cs (new_Connection nm))) \<and>
   (\<exists>r. getRepository (conn (snd (addMetadatas [M] (run cs (new_Connection nm))))) (target M) = Inr r \<and>
        getBroadcaster (conn (snd (addMetadatas [M] (run cs (new_Connection nm))))) (target M) =
          Inr (repo_broadcaster r)) \<and>
   getMetadata (conn (snd (addMetadatas [M] (run cs (new_Connection nm))))) (target M) =
     (if target M \<in> target ` set (metadatas (conn (run cs (new_Connection nm))))
      then getMetadata (conn (run cs (new_Connection nm))) (target M) else Inr M)"
proof -
  let ?s = "run cs (new_Connection nm)"
  let ?s' = "snd (addMetadatas [M] ?s)"
  have s': "?s' = run (cs @ [AddMetadatas [M]]) (new_Connection nm)"
    by (simp del: exec.simps add: run_append snd_exec)
  have ms: "metadatas (conn ?s') = metadatas (conn ?s) @ [M]"
    by (simp add: addMetadatas_one)
  have bs: "length (broadcasters (conn ?s')) = Suc (length (broadcasters (conn ?s)))"
      "take (length (broadcasters (conn ?s))) (broadcasters (conn ?s')) = broadcasters (conn ?s)"
    by (simp_all add: addMetadatas_one)
  have rs: "length (repositories (conn ?s')) = Suc (length (repositories (conn ?s)))"
      "take (length (repositories (conn ?s))) (repositories (conn ?s')) = repositories (conn ?s)"
    by (simp_all add: addMetadatas_one repositories_def)
  have "target M \<in> target ` set (metadatas (conn ?s'))"
    by (simp add: ms)
  moreover have "map metadata (repositoryAndMetadatas (conn ?s')) = metadatas (conn ?s')"
    unfolding s' by (simp only: reachable_pairs reachable_metadatas)
  ultimately obtain r where r: "getRepository (conn ?s') (target M) = Inr r"
    using getRepository_paired(2) by blast
  have "getBroadcaster (conn ?s') (target M) = Inr (repo_broadcaster r)"
    using r reachable_repository_broadcaster [of "cs @ [AddMetadatas [M]]" nm "target M" r]
    by (simp only: s')
  with r have rb: "\<exists>r. getRepository (conn ?s') (target M) = Inr r \<and>
        getBroadcaster (conn ?s') (target M) = Inr (repo_broadcaster r)"
    by blast
  have "getMetadata (conn ?s') (target M) =
      getMetadata ((conn ?s)\<lparr>metadatas := metadatas (conn ?s) @ [M]\<rparr>) (target M)"
    by (rule getMetadata_cong) (simp add: ms)
  then have gm: "getMetadata (conn ?s') (target M) =
     (if target M \<in> target ` set (metadatas (conn ?s)) then getMetadata (conn ?s) (target M) else Inr M)"
    by (simp only: getMetadata_snoc)
  show ?thesis
    using addMetadatas_None [of "[M]" ?s] ms bs rs rb gm by (intro conjI)
qed

theorem C4_witness:
  "target \<lparr>meta_id = 10, target = 7\<rparr> \<notin>
     target ` set (metadatas (conn (run [AddSubscribers [1]] (new_Connection ''db'')))) \<and>
   getMetadata (conn (snd (addMetadatas [\<lparr>meta_id = 10, target = 7\<rparr>]
      (run [AddSubscribers [1]] (new_Connection ''db''))))) (target \<lparr>meta_id = 10, target = 7\<rparr>) =
     Inr \<lparr>meta_id = 10, target = 7\<rparr> \<and>
   (\<exists>r. getRepository (conn (snd (addMetadatas [\<lparr>meta_id = 10, target = 7\<rparr>]
           (run [AddSubscribers [1]] (new_Connection ''db''))))) (target \<lparr>meta_id = 10, target = 7\<rparr>) = Inr r \<and>
        getBroadcaster (conn (snd (addMetadatas [\<lparr>meta_id = 10, target = 7\<rparr>]
           (run [AddSubscribers [1]] (new_Connection ''db''))))) (target \<lparr>meta_id = 10, target = 7\<rparr>) =
          Inr (repo_broadcaster r))"
proof -
  have h: "target \<lparr>meta_id = 10, target = 7\<rparr> \<notin>
     target ` set (metadatas (conn (run [AddSubscribers [1]] (new_Connection ''db''))))"
    by (simp add: registry_defs)
  from C4_addMetadatas_one [of "\<lparr>meta_id = 10, target = 7\<rparr>" "[AddSubscribers [1]]" "''db''"] h
  show ?thesis by (simp only: if_False) blast
qed

text \<open>
  Claim C4 as stated fails on a state in which the target is registered already:
  \<open>getMetadata\<close> returns the metadata registered first, not \<open>M\<close>.
\<close>

theorem C4_counterexample:
  "getMetadata (conn (snd (addMetadatas [\<lparr>meta_id = 11, target = 7\<rparr>]
      (run [AddMetadatas [\<lparr>meta_id = 10, target = 7\<rparr>]] (new_Connection ''db''))))) 7 =
     Inr \<lparr>meta_id = 10, target = 7\<rparr> \<and>
   getMetadata (conn (snd (addMetadatas [\<lparr>meta_id = 11, target = 7\<rparr>]
      (run [AddMetadatas [\<lparr>meta_id = 10, target = 7\<rparr>]] (new_Connection ''db''))))) 7 \<noteq>
     Inr \<lparr>meta_id = 11, target = 7\<rparr>"
  by (simp add: registry_defs)

subsection \<open>Two registrations of one target\<close>

text \<open>
  Claim C5. Let \<open>addMetadatas\<close> be called with \<open>M1\<close> and later with \<open>M2\<close>, of the same
  target, after any calls \<open>cs\<close> and with any calls \<open>mid\<close> in between. Then both pairs are
  in the registry, each with its own metadata and with a repository of its own, and
  \<open>getRepository\<close> of the target returns the repository of the first pair of the
  registry whose metadata has that target. That pair stands no later than the pair of
  \<open>M1\<close>, and it is the pair of \<open>M1\<close> when the target was not registered before.
\<close>

theorem C5_duplicate_target_first_wins:
  assumes "target M1 = target M2"
  shows "length (repositoryAndMetadatas
            (conn (run (cs @ AddMetadatas [M1] # mid @ [AddMetadatas [M2]]) (new_Connection nm)))) =
           Suc (Suc (length (registered_metadatas cs) + length (registered_metadatas mid))) \<and>
         metadata (repositoryAndMetadatas
            (conn (run (cs @ AddMetadatas [M1] # mid @ [AddMetadatas [M2]]) (new_Connection nm))) !
            length (registered_metadatas cs)) = M1 \<and>
         metadata (repositoryAndMetadatas
            (conn (run (cs @ AddMetadatas [M1] # mid @ [AddMetadatas [M2]]) (new_Connection nm))) !
            Suc (length (registered_metadatas cs) + length (registered_metadatas mid))) = M2 \<and>
         repository (repositoryAndMetadatas
            (conn (run (cs @ AddMetadatas [M1] # mid @ [AddMetadatas [M2]]) (new_Connection nm))) !
            length (registered_metadatas cs)) \<noteq>
         repository (repositoryAndMetadatas
            (conn (run (cs @ AddMetadatas [M1] # mid @ [AddMetadatas [M2]]) (new_Connection nm))) !
            Suc (length (registered_metadatas cs) + length (registered_metadatas mid))) \<and>
         (\<exists>j\<le>length (registered_metadatas cs).
            getRepository
              (conn (run (cs @ AddMetadatas [M1] # mid @ [AddMetadatas [M2]]) (new_Connection nm)))
              (target M2) =
              Inr (repository (repositoryAndMetadatas
                (conn (run (cs @ AddMetadatas [M1] # mid @ [AddMetadatas [M2]]) (new_Connection nm))) ! j)) \<and>
            target (metadata (repositoryAndMetadatas
                (conn (run (cs @ AddMetadatas [M1] # mid @ [AddMetadatas [M2]]) (new_Connection nm))) ! j)) =
              target M2 \<and>
            (\<forall>j'<j. target (metadata (repositoryAndMetadatas
                (conn (run (cs @ AddMetadatas [M1] # mid @ [AddMetadatas [M2]]) (new_Connection nm))) ! j')) \<noteq>
              target M2)) \<and>
         (target M2 \<notin> target ` set (registered_metadatas cs) \<longrightarrow>
            getRepository
              (conn (run (cs @ AddMetadatas [M1] # mid @ [AddMetadatas [M2]]) (new_Connection nm)))
              (target M2) =
              Inr (repository (repositoryAndMetadatas
                (conn (run (cs @ AddMetadatas [M1] # mid @ [AddMetadatas [M2]]) (new_Connection nm))) !
                length (registered_metadatas cs))))"
proof -
  let ?calls = "cs @ AddMetadatas [M1] # mid @ [AddMetadatas [M2]]"
  let ?c = "conn (run ?calls (new_Connection nm))"
  let ?ps = "repositoryAndMetadatas ?c"
  let ?n = "length (registered_metadatas cs)"
  let ?k = "Suc (?n + length (registered_metadatas mid))"
  let ?reg = "registered_metadatas cs @ M1 # registered_metadatas mid @ [M2]"
  have ms: "metadatas ?c = ?reg"
    by (simp only: reachable_metadatas registered_two)
  have al: "map metadata ?ps = metadatas ?c"
    by (simp only: reachable_pairs reachable_metadatas)
  have len: "length ?ps = Suc ?k"
    using al ms by (metis length_map length_append length_Cons list.size(3) add_Suc_right add_0_right add_Suc)
  have regn: "?reg ! ?n = M1"
    by simp
  have "?reg = (registered_metadatas cs @ M1 # registered_metadatas mid) @ [M2]"
    by simp
  moreover have "length (registered_metadatas cs @ M1 # registered_metadatas mid) = ?k"
    by simp
  ultimately have regk: "?reg ! ?k = M2"
    by (metis nth_append_length)
  have nth: "metadata (?ps ! j) = ?reg ! j" if "j < Suc ?k" for j
    using map_nth_eq [OF al, of j] that ms by simp
  have mn: "metadata (?ps ! ?n) = M1"
    using nth [of ?n] regn by simp
  have mk: "metadata (?ps ! ?k) = M2"
    using nth [of ?k] regk by simp
  have "distinct (map (\<lambda>p. repository_id (repository p)) ?ps)"
    using reachable_distinct_ids [of ?calls nm] by (simp only: distinct_ids_def)
  then have "repository_id (repository (?ps ! ?n)) \<noteq> repository_id (repository (?ps ! ?k))"
    by (rule distinct_map_nth_neq) (simp_all add: len)
  then have ne: "repository (?ps ! ?n) \<noteq> repository (?ps ! ?k)"
    by auto
  have "target M2 \<in> target ` set (metadatas ?c)"
    by (simp add: ms)
  then obtain r where r: "getRepository ?c (target M2) = Inr r"
    using getRepository_paired(2) [OF al] by blast
  from paired_first_pair [OF al r] obtain j where j: "j < length ?ps"
      "r = repository (?ps ! j)" "target (metadata (?ps ! j)) = target M2"
      "\<forall>j'<j. target (metadata (?ps ! j')) \<noteq> target M2"
    by blast
  have "\<not> ?n < j"
    using j(4) mn assms by auto
  then have jn: "j \<le> ?n" by simp
  have first: "\<exists>j\<le>?n. getRepository ?c (target M2) = Inr (repository (?ps ! j)) \<and>
      target (metadata (?ps ! j)) = target M2 \<and>
      (\<forall>j'<j. target (metadata (?ps ! j')) \<noteq> target M2)"
    using r j jn by blast
  have new: "getRepository ?c (target M2) = Inr (repository (?ps ! ?n))"
    if "target M2 \<notin> target ` set (registered_metadatas cs)"
  proof -
    have "\<not> j < ?n"
    proof
      assume lt: "j < ?n"
      then have "metadata (?ps ! j) = registered_metadatas cs ! j"
        using nth [of j] by (simp add: nth_append)
      moreover have "registered_metadatas cs ! j \<in> set (registered_metadatas cs)"
        using lt by simp
      ultimately show False
        using j(3) that by (metis imageI)
    qed
    then have "j = ?n" using jn by simp
    then show ?thesis using r j(2) by simp
  qed
  show ?thesis
    using len mn mk ne first new by (intro conjI impI)
qed

theorem C5_witness:
  "target \<lparr>meta_id = 10, target = 7\<rparr> = target \<lparr>meta_id = 11, target = 7\<rparr> \<and>
   target \<lparr>meta_id = 11, target = 7\<rparr> \<notin> target ` set (registered_metadatas [AddSubscribers [1]]) \<and>
   getRepository
     (conn (run ([AddSubscribers [1]] @ AddMetadatas [\<lparr>meta_id = 10, target = 7\<rparr>] #
                 [AddMetadatas [\<lparr>meta_id = 12, target = 8\<rparr>]] @ [AddMetadatas [\<lparr>meta_id = 11, target = 7\<rparr>]])
             (new_Connection ''db'')))
     (target \<lparr>meta_id = 11, target = 7\<rparr>) =
     Inr (repository (repositoryAndMetadatas
       (conn (run ([AddSubscribers [1]] @ AddMetadatas [\<lparr>meta_id = 10, target = 7\<rparr>] #
                   [AddMetadatas [\<lparr>meta_id = 12, target = 8\<rparr>]] @ [AddMetadatas [\<lparr>meta_id = 11, target = 7\<rparr>]])
               (new_Connection ''db''))) !
       length (registered_metadatas [AddSubscribers [1]]))) \<and>
   repository (repositoryAndMetadatas
       (conn (run ([AddSubscribers [1]] @ AddMetadatas [\<lparr>meta_id = 10, target = 7\<rparr>] #
                   [AddMetadatas [\<lparr>meta_id = 12, target = 8\<rparr>]] @ [AddMetadatas [\<lparr>meta_id = 11, target = 7\<rparr>]])
               (new_Connection ''db''))) !
       length (registered_metadatas [AddSubscribers [1]])) \<noteq>
   repository (repositoryAndMetadatas
       (conn (run ([AddSubscribers [1]] @ AddMetadatas [\<lparr>meta_id = 10, target = 7\<rparr>] #
                   [AddMetadatas [\<lparr>meta_id = 12, target = 8\<rparr>]] @ [AddMetadatas [\<lparr>meta_id = 11, target = 7\<rparr>]])
               (new_Connection ''db''))) !
       Suc (length (registered_metadatas [AddSubscribers [1]]) +
            length (registered_metadatas [AddMetadatas [\<lparr>meta_id = 12, target = 8\<rparr>]])))"
proof -
  have h1: "target \<lparr>meta_id = 10, target = 7\<rparr> = target \<lparr>meta_id = 11, target = 7\<rparr>"
    by simp
  have h2: "target \<lparr>meta_id = 11, target = 7\<rparr> \<notin> target ` set (registered_metadatas [AddSubscribers [1]])"
    by simp
  from C5_duplicate_target_first_wins [OF h1, of "[AddSubscribers [1]]"
      "[AddMetadatas [\<lparr>meta_id = 12, target = 8\<rparr>]]" "''db''"] h1 h2
  show ?thesis by blast
qed

subsection \<open>Schema creation in connect\<close>

text \<open>
  Claim C6. The events that \<open>connect\<close> adds to the log contain the call of
  \<open>schemaCreator.create()\<close> exactly when the driver's promise is fulfilled and
  \<open>options.autoSchemaCreate\<close> is \<open>true\<close> (not when it is \<open>false\<close> or omitted, and not
  when the driver's promise is rejected or still pending); and wherever that call stands in the added events, the
  fulfilment of the driver's promise stands before it and nothing follows it.
\<close>

theorem C6_schema_creation_after_session:
  "log (snd (connect opts dr sr s)) = log s @ connect_events opts dr sr s \<and>
   (SchemaCreate \<in> set (connect_events opts dr sr s) \<longleftrightarrow>
      dr = Fulfilled \<and> autoSchemaCreate opts = Some True) \<and>
   (\<forall>before after. connect_events opts dr sr s = before @ SchemaCreate # after \<longrightarrow>
      DriverConnectResolved \<in> set before \<and> after = [])"
proof (intro conjI allI impI)
  show "log (snd (connect opts dr sr s)) = log s @ connect_events opts dr sr s"
    by (rule connect_log)
  show "SchemaCreate \<in> set (connect_events opts dr sr s) \<longleftrightarrow>
      dr = Fulfilled \<and> autoSchemaCreate opts = Some True"
    by (simp add: connect_events_eq split: settlement.splits)
next
  fix before after
  assume split: "connect_events opts dr sr s = before @ SchemaCreate # after"
  then have "SchemaCreate \<in> set (connect_events opts dr sr s)"
    by simp
  then have "dr = Fulfilled" and "autoSchemaCreate opts = Some True"
    by (simp_all add: connect_events_eq split: settlement.splits if_splits)
  then have "[DriverConnect opts, DriverConnectResolved] @ SchemaCreate # [] = before @ SchemaCreate # after"
    using split by (simp add: connect_events_eq)
  then have "before = [DriverConnect opts, DriverConnectResolved] \<and> after = []"
    by (simp add: append_eq_append_conv2 append_eq_Cons_conv Cons_eq_append_conv)
  then show "DriverConnectResolved \<in> set before" and "after = []"
    by simp_all
qed

theorem C6_witness:
  "SchemaCreate \<in> set (connect_events \<lparr>autoSchemaCreate = Some True\<rparr> Fulfilled Fulfilled (new_Connection ''db'')) \<and>
   connect_events \<lparr>autoSchemaCreate = Some True\<rparr> Fulfilled Fulfilled (new_Connection ''db'') =
     [DriverConnect \<lparr>autoSchemaCreate = Some True\<rparr>, DriverConnectResolved] @ SchemaCreate # [] \<and>
   DriverConnectResolved \<in> set [DriverConnect \<lparr>autoSchemaCreate = Some True\<rparr>, DriverConnectResolved] \<and>
   SchemaCreate \<notin> set (connect_events \<lparr>autoSchemaCreate = None\<rparr> Fulfilled Fulfilled (new_Connection ''db'')) \<and>
   SchemaCreate \<notin> set (connect_events \<lparr>autoSchemaCreate = Some False\<rparr> Fulfilled Fulfilled (new_Connection ''db'')) \<and>
   SchemaCreate \<notin> set (connect_events \<lparr>autoSchemaCreate = Some True\<rparr> (Rejected (ExternalError 1)) Fulfilled
                          (new_Connection ''db'')) \<and>
   SchemaCreate \<notin> set (connect_events \<lparr>autoSchemaCreate = Some True\<rparr> Pending Fulfilled
                          (new_Connection ''db''))"
  using C6_schema_creation_after_session
      [of "\<lparr>autoSchemaCreate = Some True\<rparr>" Fulfilled Fulfilled "new_Connection ''db''"]
    C6_schema_creation_after_session
      [of "\<lparr>autoSchemaCreate = None\<rparr>" Fulfilled Fulfilled "new_Connection ''db''"]
    C6_schema_creation_after_session
      [of "\<lparr>autoSchemaCreate = Some False\<rparr>" Fulfilled Fulfilled "new_Connection ''db''"]
    C6_schema_creation_after_session
      [of "\<lparr>autoSchemaCreate = Some True\<rparr>" "Rejected (ExternalError 1)" Fulfilled "new_Connection ''db''"]
    C6_schema_creation_after_session
      [of "\<lparr>autoSchemaCreate = Some True\<rparr>" Pending Fulfilled "new_Connection ''db''"]
  by (simp add: connect_events_eq)

subsection \<open>Every registered metadata has a repository\<close>

text \<open>
  Claim C7. In every state that a sequence of public calls reaches from a new
  connection, \<open>getRepository\<close> returns a repository for every entity class that is the
  target of a registered metadata, and it throws \<open>RepositoryNotFoundError\<close> for no
  entity class at all.
\<close>

theorem C7_repository_always_found:
  "(e \<in> target ` set (metadatas (conn (run cs (new_Connection nm)))) \<longrightarrow>
      (\<exists>r. getRepository (conn (run cs (new_Connection nm))) e = Inr r)) \<and>
   getRepository (conn (run cs (new_Connection nm))) e' \<noteq> Inl (RepositoryNotFoundError x)"
proof -
  have "map metadata (repositoryAndMetadatas (conn (run cs (new_Connection nm)))) =
      metadatas (conn (run cs (new_Connection nm)))"
    by (simp add: reachable_pairs reachable_metadatas)
  from getRepository_paired [OF this] show ?thesis by blast
qed

theorem C7_witness:
  "7 \<in> target ` set (metadatas (conn (run [AddSubscribers [1, 2],
      AddMetadatas [\<lparr>meta_id = 10, target = 7\<rparr>]] (new_Connection ''db'')))) \<and>
   (\<exists>r. getRepository (conn (run [AddSubscribers [1, 2],
      AddMetadatas [\<lparr>meta_id = 10, target = 7\<rparr>]] (new_Connection ''db''))) 7 = Inr r)"
proof -
  have h: "7 \<in> target ` set (metadatas (conn (run [AddSubscribers [1, 2],
      AddMetadatas [\<lparr>meta_id = 10, target = 7\<rparr>]] (new_Connection ''db''))))"
    by (simp add: registry_defs)
  from C7_repository_always_found [of 7 "[AddSubscribers [1, 2],
      AddMetadatas [\<lparr>meta_id = 10, target = 7\<rparr>]]" "''db''"] h
  show ?thesis by blast
qed

subsection \<open>The three sequences stay aligned\<close>

text \<open>
  Claim C8. After every sequence of public calls on a new connection, the metadatas,
  the broadcasters and the \<open>{repository, metadata}\<close> pairs are equally many, and at
  every index the pair holds the very metadata at that index and the broadcaster is
  bound to the target of that metadata.
\<close>

theorem C8_sequences_aligned:
  "length (broadcasters (conn (run cs (new_Connection nm)))) =
     length (metadatas (conn (run cs (new_Connection nm)))) \<and>
   length (repositoryAndMetadatas (conn (run cs (new_Connection nm)))) =
     length (metadatas (conn (run cs (new_Connection nm)))) \<and>
   (\<forall>i<length (metadatas (conn (run cs (new_Connection nm)))).
      metadata (repositoryAndMetadatas (conn (run cs (new_Connection nm))) ! i) =
        metadatas (conn (run cs (new_Connection nm))) ! i \<and>
      entityClass (broadcasters (conn (run cs (new_Connection nm))) ! i) =
        target (metadatas (conn (run cs (new_Connection nm))) ! i))"
proof -
  let ?c = "conn (run cs (new_Connection nm))"
  have ps: "map metadata (repositoryAndMetadatas ?c) = metadatas ?c"
    by (simp add: reachable_pairs reachable_metadatas)
  have bs: "map entityClass (broadcasters ?c) = map target (metadatas ?c)"
    by (simp add: reachable_broadcasters reachable_metadatas)
  have "length (broadcasters ?c) = length (metadatas ?c)"
    using bs by (metis length_map)
  moreover have "length (repositoryAndMetadatas ?c) = length (metadatas ?c)"
    using ps by (metis length_map)
  moreover have "metadata (repositoryAndMetadatas ?c ! i) = metadatas ?c ! i"
    if "i < length (metadatas ?c)" for i
    using map_nth_eq [OF ps that] .
  moreover have "entityClass (broadcasters ?c ! i) = target (metadatas ?c ! i)"
    if "i < length (metadatas ?c)" for i
    using map_nth_eq [OF bs] that by simp
  ultimately show ?thesis by blast
qed

theorem C8_witness:
  "(0::nat) < length (metadatas (conn (run [AddSubscribers [1, 2],
      AddMetadatas [\<lparr>meta_id = 10, target = 7\<rparr>]] (new_Connection ''db'')))) \<and>
   metadata (repositoryAndMetadatas (conn (run [AddSubscribers [1, 2],
      AddMetadatas [\<lparr>meta_id = 10, target = 7\<rparr>]] (new_Connection ''db''))) ! 0) =
     metadatas (conn (run [AddSubscribers [1, 2],
      AddMetadatas [\<lparr>meta_id = 10, target = 7\<rparr>]] (new_Connection ''db''))) ! 0 \<and>
   entityClass (broadcasters (conn (run [AddSubscribers [1, 2],
      AddMetadatas [\<lparr>meta_id = 10, target = 7\<rparr>]] (new_Connection ''db''))) ! 0) =
     target (metadatas (conn (run [AddSubscribers [1, 2],
      AddMetadatas [\<lparr>meta_id = 10, target = 7\<rparr>]] (new_Connection ''db''))) ! 0)"
proof -
  have h: "(0::nat) < length (metadatas (conn (run [AddSubscribers [1, 2],
      AddMetadatas [\<lparr>meta_id = 10, target = 7\<rparr>]] (new_Connection ''db''))))"
    by (simp add: registry_defs)
  from C8_sequences_aligned [of "[AddSubscribers [1, 2],
      AddMetadatas [\<lparr>meta_id = 10, target = 7\<rparr>]]" "''db''"] h
  show ?thesis by blast
qed

subsection \<open>The lookups are reads\<close>

text \<open>
  Claim C9. In every state, the calls of \<open>getMetadata\<close>, \<open>getRepository\<close> and
  \<open>getBroadcaster\<close> leave the state as it is, whether they return or throw. Their
  result is a function of the state and the entity class, and what they return is the
  first match in the order of the sequence they scan: the first metadata with that
  target, the first broadcaster bound to it, and the repository of the first pair that
  holds the metadata that \<open>getMetadata\<close> returned.
\<close>

theorem C9_lookups_pure_first_match:
  "snd (exec (GetMetadata e) s) = s \<and>
   snd (exec (GetRepository e) s) = s \<and>
   snd (exec (GetBroadcaster e) s) = s \<and>
   (getMetadata c e = Inr m \<longleftrightarrow>
     (\<exists>i<length (metadatas c). metadatas c ! i = m \<and> target m = e \<and>
        (\<forall>j<i. target (metadatas c ! j) \<noteq> e))) \<and>
   (getBroadcaster c e = Inr b \<longleftrightarrow>
     (\<exists>i<length (broadcasters c). broadcasters c ! i = b \<and> entityClass b = e \<and>
        (\<forall>j<i. entityClass (broadcasters c ! j) \<noteq> e))) \<and>
   (getRepository c e = Inr r \<longleftrightarrow>
     (\<exists>m. getMetadata c e = Inr m \<and>
        (\<exists>i<length (repositoryAndMetadatas c).
           metadata (repositoryAndMetadatas c ! i) = m \<and> repository (repositoryAndMetadatas c ! i) = r \<and>
           (\<forall>j<i. metadata (repositoryAndMetadatas c ! j) \<noteq> m))))"
  using getMetadata_first_match [of c e m] getBroadcaster_first_match [of c e b]
    getRepository_first_match [of c e r] snd_exec(5-7) [of e s]
  by (simp del: exec.simps)

theorem C9_witness:
  "getMetadata (conn (run [AddMetadatas [\<lparr>meta_id = 10, target = 7\<rparr>, \<lparr>meta_id = 11, target = 7\<rparr>]]
      (new_Connection ''db''))) 7 = Inr \<lparr>meta_id = 10, target = 7\<rparr> \<and>
   (\<exists>i<length (metadatas (conn (run [AddMetadatas [\<lparr>meta_id = 10, target = 7\<rparr>, \<lparr>meta_id = 11, target = 7\<rparr>]]
      (new_Connection ''db'')))).
      metadatas (conn (run [AddMetadatas [\<lparr>meta_id = 10, target = 7\<rparr>, \<lparr>meta_id = 11, target = 7\<rparr>]]
        (new_Connection ''db''))) ! i = \<lparr>meta_id = 10, target = 7\<rparr> \<and>
      target \<lparr>meta_id = 10, target = 7\<rparr> = 7 \<and>
      (\<forall>j<i. target (metadatas (conn (run [AddMetadatas [\<lparr>meta_id = 10, target = 7\<rparr>, \<lparr>meta_id = 11, target = 7\<rparr>]]
        (new_Connection ''db''))) ! j) \<noteq> 7))"
proof -
  have h: "getMetadata (conn (run [AddMetadatas [\<lparr>meta_id = 10, target = 7\<rparr>, \<lparr>meta_id = 11, target = 7\<rparr>]]
      (new_Connection ''db''))) 7 = Inr \<lparr>meta_id = 10, target = 7\<rparr>"
    by (simp add: registry_defs)
  from C9_lookups_pure_first_match [of 7 "new_Connection ''db''"
      "conn (run [AddMetadatas [\<lparr>meta_id = 10, target = 7\<rparr>, \<lparr>meta_id = 11, target = 7\<rparr>]]
        (new_Connection ''db''))" "\<lparr>meta_id = 10, target = 7\<rparr>"] h
  show ?thesis by blast
qed

subsection \<open>close keeps the registry\<close>

text \<open>
  Claim C10. In every state, \<open>close\<close> asks the driver to disconnect and changes nothing
  else: the metadatas, the subscribers, the broadcasters with their subscriber views, and
  the \<open>{repository, metadata}\<close> pairs are as before.
\<close>

theorem C10_close_frame:
  "snd (close dr s) = s\<lparr>log := log s @ [DriverDisconnect]\<rparr> \<and>
   metadatas (conn (snd (close dr s))) = metadatas (conn s) \<and>
   current_subscribers (snd (close dr s)) = current_subscribers s \<and>
   broadcasters (conn (snd (close dr s))) = broadcasters (conn s) \<and>
   subscriber_view (snd (close dr s)) b = subscriber_view s b \<and>
   repositoryAndMetadatas (conn (snd (close dr s))) = repositoryAndMetadatas (conn s) \<and>
   repositories (conn (snd (close dr s))) = repositories (conn s)"
  by (simp add: close_def current_subscribers_def subscriber_view_def read_array_def repositories_def)

end
